theory Spec2Isabelle
  imports Main "HOL-Library.Word" "HOL-Library.Char_ord" "HOL-Library.List_Lexorder"
    "HOL-Library.Multiset"
begin

unbundle bit_operations_syntax

section \<open>JavaScript values\<close>

text \<open>
  The helpers of \<^verbatim>\<open>src/helpers/index.js\<close> work on plain JavaScript data.  A value is
  one of the JSON-like shapes below.  A string is a list of code units below 256.  A
  number is a safe integer, one that \<^verbatim>\<open>Number.isSafeInteger\<close> accepts: these are the
  numbers JavaScript prints in decimal digit for digit.  Fractions, larger numbers,
  \<^verbatim>\<open>NaN\<close> and the infinities are not values of the model.  An object is its list of own
  enumerable properties in the order \<^verbatim>\<open>Object.keys\<close> reports them.  Values are trees:
  no object is held by two properties, so that a rewrite of an object in place is seen
  through the one property that holds it.
\<close>

typedef safe_integer = "{n :: int. - 9007199254740991 \<le> n \<and> n \<le> 9007199254740991}"
  morphisms int_of safe
  by (rule exI[of _ 0]) simp

lemma int_of_safe [simp]:
  "- 9007199254740991 \<le> n \<Longrightarrow> n \<le> 9007199254740991 \<Longrightarrow> int_of (safe n) = n"
  by (simp add: safe_inverse)

datatype jsval =
    Undefined
  | Null
  | Bool bool
  | Number safe_integer
  | Str string
  | Arr "jsval list"
  | Obj "(string \<times> jsval) list"

text \<open>The number whose value is the safe integer \<open>n\<close>.\<close>

abbreviation Num :: "int \<Rightarrow> jsval" where
  "Num n \<equiv> Number (safe n)"

type_synonym jsobj = "(string \<times> jsval) list"

text \<open>
  What a \<^verbatim>\<open>throw\<close> carries: \<open>TypeError\<close> is raised by the language (a property read
  on \<^verbatim>\<open>null\<close> or \<^verbatim>\<open>undefined\<close>, a call of something that is no function),
  \<open>InvariantViolation\<close> by the package \<^verbatim>\<open>invariant\<close>, and \<open>UrlError\<close> stands for
  whatever the package \<^verbatim>\<open>normalize-url\<close> throws on a string it does not accept.
\<close>

datatype error = TypeError | InvariantViolation | UrlError

text \<open>\<^verbatim>\<open>typeof v === 'object'\<close>: true of objects, arrays and \<^verbatim>\<open>null\<close>.\<close>

fun typeof_object :: "jsval \<Rightarrow> bool" where
  "typeof_object Null = True"
| "typeof_object (Arr _) = True"
| "typeof_object (Obj _) = True"
| "typeof_object _ = False"

text \<open>ToBoolean.\<close>

fun truthy :: "jsval \<Rightarrow> bool" where
  "truthy Undefined = False"
| "truthy Null = False"
| "truthy (Bool b) = b"
| "truthy (Number n) = (int_of n \<noteq> 0)"
| "truthy (Str s) = (s \<noteq> [])"
| "truthy (Arr _) = True"
| "truthy (Obj _) = True"

subsection \<open>Numbers as text\<close>

definition digit_char :: "nat \<Rightarrow> char" where
  "digit_char n = ''0123456789'' ! n"

fun show_nat :: "nat \<Rightarrow> string" where
  "show_nat n = (if n < 10 then [digit_char n] else show_nat (n div 10) @ [digit_char (n mod 10)])"

declare show_nat.simps [simp del]

definition show_int :: "int \<Rightarrow> string" where
  "show_int i = (if i < 0 then CHR ''-'' # show_nat (nat (- i)) else show_nat (nat i))"

definition is_digit :: "char \<Rightarrow> bool" where
  "is_digit c = (48 \<le> (of_char c :: nat) \<and> (of_char c :: nat) \<le> 57)"

definition read_nat :: "string \<Rightarrow> nat" where
  "read_nat s = foldl (\<lambda>n c. 10 * n + ((of_char c :: nat) - 48)) 0 s"

subsection \<open>Own property order\<close>

text \<open>
  An ordinary object lists its array-index keys (canonical decimal numerals below
  \<open>2^32 - 1\<close>) first, in ascending numeric order, and its other string keys after them in
  insertion order.  \<open>obj_set\<close> writes an own property and \<open>obj_get\<close> reads one, giving
  \<^verbatim>\<open>undefined\<close> when the object has no own property of that name.
\<close>

definition is_array_index :: "string \<Rightarrow> bool" where
  "is_array_index k =
     (k \<noteq> [] \<and> list_all is_digit k \<and> (k = ''0'' \<or> hd k \<noteq> CHR ''0'') \<and> read_nat k < 4294967295)"

fun insert_index :: "string \<Rightarrow> jsval \<Rightarrow> jsobj \<Rightarrow> jsobj" where
  "insert_index k v [] = [(k, v)]"
| "insert_index k v ((k', v') # ps) =
     (if is_array_index k' \<and> read_nat k' < read_nat k
      then (k', v') # insert_index k v ps
      else (k, v) # (k', v') # ps)"

definition obj_set :: "jsobj \<Rightarrow> string \<Rightarrow> jsval \<Rightarrow> jsobj" where
  "obj_set ps k v =
     (if k \<in> fst ` set ps then map (\<lambda>(k', v'). if k' = k then (k', v) else (k', v')) ps
      else if is_array_index k then insert_index k v ps
      else ps @ [(k, v)])"

definition obj_get :: "jsobj \<Rightarrow> string \<Rightarrow> jsval" where
  "obj_get ps k = (case map_of ps k of None \<Rightarrow> Undefined | Some v \<Rightarrow> v)"

definition keys :: "jsobj \<Rightarrow> string list" where
  "keys ps = map fst ps"

text \<open>
  An object literal inherits the members of \<^verbatim>\<open>Object.prototype\<close>, and \<open>inherited_names\<close>
  are their names.  The read \<^verbatim>\<open>o[k]\<close> is \<open>obj_get\<close> when \<open>k\<close> is an own property of \<open>o\<close>
  or is none of these names; for one of these names that is not own, it gives the
  inherited member, which is not a value of the model.  The assignment \<^verbatim>\<open>o[k] = v\<close> is
  \<open>obj_set\<close> when \<open>k\<close> is an own property of \<open>o\<close> or is not \<^verbatim>\<open>__proto__\<close>; on an object
  without an own property \<^verbatim>\<open>__proto__\<close> the assignment \<^verbatim>\<open>o['__proto__'] = v\<close> calls the
  inherited setter, which adds no own property.  \<open>assign\<close> is the assignment to an object
  that was created as \<^verbatim>\<open>{}\<close> and has been written by assignments only.
\<close>

definition inherited_names :: "string list" where
  "inherited_names =
     [''constructor'', ''__defineGetter__'', ''__defineSetter__'', ''hasOwnProperty'',
      ''__lookupGetter__'', ''__lookupSetter__'', ''isPrototypeOf'', ''propertyIsEnumerable'',
      ''toString'', ''valueOf'', ''__proto__'', ''toLocaleString'']"

definition assign :: "jsobj \<Rightarrow> string \<Rightarrow> jsval \<Rightarrow> jsobj" where
  "assign ps k v = (if k = ''__proto__'' then ps else obj_set ps k v)"

text \<open>The own properties of an array: its indices, in order.\<close>

definition arr_props :: "jsval list \<Rightarrow> jsobj" where
  "arr_props xs = zip (map show_nat [0 ..< length xs]) xs"

section \<open>Library functions the helpers call\<close>

text \<open>
  The helpers call JavaScript built-ins and three small packages.  They are modelled here
  on the values above: \<^verbatim>\<open>Array.prototype.join\<close>, \<^verbatim>\<open>JSON.stringify\<close>,
  \<^verbatim>\<open>encodeURIComponent\<close>, \<^verbatim>\<open>String.prototype.toUpperCase\<close> (ASCII letters),
  \<^verbatim>\<open>querystring.stringify\<close> and the package \<^verbatim>\<open>string-hash\<close>.  The package
  \<^verbatim>\<open>normalize-url\<close> is not modelled: every function that calls it takes it as the
  parameter \<open>normalizeUrl\<close>, which gives \<open>None\<close> on a string the package throws on.
\<close>

fun join :: "string \<Rightarrow> string list \<Rightarrow> string" where
  "join sep [] = []"
| "join sep [x] = x"
| "join sep (x # y # ys) = x @ sep @ join sep (y # ys)"

definition hex_upper :: "nat \<Rightarrow> char" where
  "hex_upper n = ''0123456789ABCDEF'' ! n"

definition hex_lower :: "nat \<Rightarrow> char" where
  "hex_lower n = ''0123456789abcdef'' ! n"

subsection \<open>JSON.stringify\<close>

definition json_escape :: "char \<Rightarrow> string" where
  "json_escape c =
     (let n = (of_char c :: nat) in
      if n = 34 then [CHR 0x5C, CHR 0x22]
      else if n = 92 then [CHR 0x5C, CHR 0x5C]
      else if n = 8 then [CHR 0x5C, CHR ''b'']
      else if n = 9 then [CHR 0x5C, CHR ''t'']
      else if n = 10 then [CHR 0x5C, CHR ''n'']
      else if n = 12 then [CHR 0x5C, CHR ''f'']
      else if n = 13 then [CHR 0x5C, CHR ''r'']
      else if n < 32 then [CHR 0x5C, CHR ''u'', CHR ''0'', CHR ''0'',
                           hex_lower (n div 16), hex_lower (n mod 16)]
      else [c])"

definition json_quote :: "string \<Rightarrow> string" where
  "json_quote s = [CHR 0x22] @ concat (map json_escape s) @ [CHR 0x22]"

text \<open>
  A property whose value is \<^verbatim>\<open>undefined\<close> is left out of an object; an
  \<^verbatim>\<open>undefined\<close> array element is written \<^verbatim>\<open>null\<close>.  The helpers call
  \<^verbatim>\<open>JSON.stringify\<close> on objects, arrays and \<^verbatim>\<open>null\<close> only.
\<close>

fun JSON_stringify :: "jsval \<Rightarrow> string" where
  "JSON_stringify Undefined = ''null''"
| "JSON_stringify Null = ''null''"
| "JSON_stringify (Bool b) = (if b then ''true'' else ''false'')"
| "JSON_stringify (Number n) = show_int (int_of n)"
| "JSON_stringify (Str s) = json_quote s"
| "JSON_stringify (Arr xs) = ''['' @ join '','' (map JSON_stringify xs) @ '']''"
| "JSON_stringify (Obj ps) =
     ''{'' @ join '',''
        (concat (map (\<lambda>(k, v). if v = Undefined then []
                                else [json_quote k @ '':'' @ JSON_stringify v]) ps)) @ ''}''"

subsection \<open>encodeURIComponent and querystring.stringify\<close>

definition unreserved :: "char \<Rightarrow> bool" where
  "unreserved c =
     (let n = (of_char c :: nat) in
      (65 \<le> n \<and> n \<le> 90) \<or> (97 \<le> n \<and> n \<le> 122) \<or> (48 \<le> n \<and> n \<le> 57) \<or>
      c \<in> set ''-_.!~*'()'')"

definition pct :: "nat \<Rightarrow> string" where
  "pct b = [CHR ''%'', hex_upper (b div 16), hex_upper (b mod 16)]"

text \<open>A code unit from 128 to 255 is sent as the two bytes of its UTF-8 form.\<close>

definition encode_char :: "char \<Rightarrow> string" where
  "encode_char c =
     (let n = (of_char c :: nat) in
      if unreserved c then [c]
      else if n < 128 then pct n
      else pct (192 + n div 64) @ pct (128 + n mod 64))"

definition encodeURIComponent :: "string \<Rightarrow> string" where
  "encodeURIComponent s = concat (map encode_char s)"

text \<open>\<^verbatim>\<open>querystring\<close> writes a string, number or boolean as its text and anything else as
  the empty string.\<close>

fun stringifyPrimitive :: "jsval \<Rightarrow> string" where
  "stringifyPrimitive (Str s) = s"
| "stringifyPrimitive (Bool b) = (if b then ''true'' else ''false'')"
| "stringifyPrimitive (Number n) = show_int (int_of n)"
| "stringifyPrimitive _ = []"

text \<open>
  \<^verbatim>\<open>querystring.stringify\<close> on an object none of whose values is an array (the helpers
  hand it no other).
\<close>

definition querystring_stringify :: "jsobj \<Rightarrow> string" where
  "querystring_stringify ps =
     join ''&'' (map (\<lambda>(k, v). encodeURIComponent k @ ''='' @
                                encodeURIComponent (stringifyPrimitive v)) ps)"

subsection \<open>string-hash\<close>

text \<open>
  \<^verbatim>\<open>hash = 5381; i = str.length; while (i) hash = (hash * 33) ^ str.charCodeAt(--i);
  return hash >>> 0\<close>: the string is read from its end, in 32-bit arithmetic.
\<close>

definition stringHash :: "string \<Rightarrow> nat" where
  "stringHash str =
     unat (foldr (\<lambda>c hash. (hash * 33) XOR (of_nat (of_char c) :: 32 word)) str 5381)"

subsection \<open>toUpperCase\<close>

text \<open>Exact on strings whose letters are ASCII, as the names of HTTP methods are.\<close>

definition upper_char :: "char \<Rightarrow> char" where
  "upper_char c =
     (let n = (of_char c :: nat) in
      if 97 \<le> n \<and> n \<le> 122 then ''ABCDEFGHIJKLMNOPQRSTUVWXYZ'' ! (n - 97) else c)"

definition toUpperCase :: "string \<Rightarrow> string" where
  "toUpperCase s = map upper_char s"

section \<open>The helpers\<close>

subsection \<open>Errors\<close>

text \<open>A \<^verbatim>\<open>throw\<close> is the left summand of the result.\<close>

definition bind_err :: "error + 'a \<Rightarrow> ('a \<Rightarrow> error + 'b) \<Rightarrow> error + 'b" where
  "bind_err m f = (case m of Inl e \<Rightarrow> Inl e | Inr x \<Rightarrow> f x)"

lemma bind_err_cong [fundef_cong]:
  "m = m' \<Longrightarrow> (\<And>x. m' = Inr x \<Longrightarrow> f x = f' x) \<Longrightarrow> bind_err m f = bind_err m' f'"
  by (cases m') (simp_all add: bind_err_def)

subsection \<open>sortObject\<close>

text \<open>
  The function \<^verbatim>\<open>_sortObject\<close> of the source.  \<open>weight\<close> is the number of arrays and
  objects inside a value; it decreases along the recursion.
\<close>

fun weight :: "jsval \<Rightarrow> nat" where
  "weight (Arr xs) = Suc (sum_list (map weight xs))"
| "weight (Obj ps) = Suc (sum_list (map (\<lambda>p. weight (snd p)) ps))"
| "weight _ = 0"

text \<open>
  \<^verbatim>\<open>Object.keys(obj).sort().reduce((_obj, key) => { _obj[key] = typeof obj[key] ===
  'object' ? _sortObject(obj[key]) : obj[key]; return _obj; }, {})\<close>.
  The default comparison of \<^verbatim>\<open>sort\<close> orders strings by their code units.  On a nested
  array \<^verbatim>\<open>Object.keys\<close> gives the indices, and on \<^verbatim>\<open>null\<close> it throws.  The keys are
  own properties of \<open>obj\<close>, so \<^verbatim>\<open>obj[key]\<close> is \<open>obj_get\<close>; the accumulator starts as
  \<^verbatim>\<open>{}\<close>, so \<^verbatim>\<open>_obj[key] = \<dots>\<close> is \<open>assign\<close>.
\<close>

function sortObject :: "jsobj \<Rightarrow> error + jsobj" where
  "sortObject obj =
     foldl (\<lambda>acc key.
        bind_err acc (\<lambda>obj'.
          bind_err
            (case obj_get obj key of
               Null \<Rightarrow> Inl TypeError
             | Arr xs \<Rightarrow> map_sum id Obj (sortObject (arr_props xs))
             | Obj ps \<Rightarrow> map_sum id Obj (sortObject ps)
             | v \<Rightarrow> Inr v)
            (\<lambda>v. Inr (assign obj' key v))))
       (Inr []) (sort (keys obj))"
  by pat_completeness auto

lemma obj_get_weight:
  "obj_get obj key = v \<Longrightarrow> weight v \<le> sum_list (map (\<lambda>p. weight (snd p)) obj)"
  unfolding obj_get_def
  by (induction obj) (auto split: option.splits if_splits)

lemma weight_arr_props:
  "sum_list (map (\<lambda>p. weight (snd p)) (arr_props xs)) = sum_list (map weight xs)"
proof -
  have "map (\<lambda>p. weight (snd p)) (arr_props xs) = map weight (map snd (arr_props xs))"
    by simp
  also have "map snd (arr_props xs) = xs"
    by (simp add: arr_props_def)
  finally show ?thesis by simp
qed

termination sortObject
proof (relation "measure (\<lambda>obj. sum_list (map (\<lambda>p. weight (snd p)) obj))", goal_cases)
  case 1
  show ?case by simp
next
  case (2 obj acc key obj' xs)
  from obj_get_weight[OF 2(3)] show ?case by (simp add: weight_arr_props)
next
  case (3 obj acc key obj' ps)
  from obj_get_weight[OF 3(3)] show ?case by simp
qed

declare sortObject.simps [simp del]

subsection \<open>normalizeParams\<close>

text \<open>
  \<^verbatim>\<open>Object.keys(params).forEach((key) => { if (typeof params[key] === 'object')
  params[key] = JSON.stringify(params[key]); })\<close> rewrites the caller's object in place,
  so the function gives back, with the string, the argument as the caller sees it
  afterwards.  An \<^verbatim>\<open>undefined\<close> argument is replaced by a fresh \<^verbatim>\<open>{}\<close> and stays
  \<^verbatim>\<open>undefined\<close> for the caller.  The keys are own properties of \<open>params\<close>, so the read
  is \<open>obj_get\<close> and the assignment is \<open>obj_set\<close>.
\<close>

definition stringify_step :: "jsobj \<Rightarrow> string \<Rightarrow> jsobj" where
  "stringify_step params key =
     (if typeof_object (obj_get params key)
      then obj_set params key (Str (JSON_stringify (obj_get params key)))
      else params)"

definition normalizeParams :: "jsobj option \<Rightarrow> error + (string \<times> jsobj option)" where
  "normalizeParams arg =
     (let params = (case arg of None \<Rightarrow> [] | Some ps \<Rightarrow> ps);
          params' = foldl stringify_step params (keys params)
      in bind_err (sortObject params')
           (\<lambda>sorted. Inr (querystring_stringify sorted, map_option (\<lambda>_. params') arg)))"

subsection \<open>Schemas and resource definitions\<close>

text \<open>
  The helpers read a schema through two methods only: it either has \<^verbatim>\<open>getKey\<close> (an
  entity schema, with its key) or has \<^verbatim>\<open>getItemSchema\<close>, whose result has \<^verbatim>\<open>getKey\<close>
  (a collection, with the key of its items).
\<close>

datatype schema = EntitySchema string | IterableSchema string

text \<open>A function stored in a definition is not called by the helpers; only its identity
  matters.\<close>

datatype fn = Normalizr_normalize | UserFunction nat

text \<open>
  A resource definition is an object literal.  One of its properties is absent, or is
  written with the value \<^verbatim>\<open>undefined\<close>, or is written with a value of its type.
  \<open>isArray\<close> and \<open>requestKey\<close> are the properties normalisation adds.
\<close>

datatype 'a property = Absent | Undef | Val 'a

datatype resource_definition = Definition
  (schema_prop: "schema property")
  (url_prop: "string property")
  (params_prop: "jsobj property")
  (method_prop: "string property")
  (headers_prop: "jsobj property")
  (body_prop: "jsobj property")
  (auto_prop: "bool property")
  (store_prop: "bool property")
  (clientOnly_prop: "bool property")
  (defaultValue_prop: "jsval property")
  (updateStrategy_prop: "jsval property")
  (normalize_prop: "fn property")
  (actions_prop: "jsval property")
  (extends_prop: "resource_definition property")
  (isArray_prop: "bool property")
  (requestKey_prop: "nat property")

text \<open>
  The read \<^verbatim>\<open>definition.schema\<close> and the like: \<open>None\<close> is \<^verbatim>\<open>undefined\<close>, which is what
  an absent property reads as.  A primed name is the property of the same name without
  the prime.
\<close>

definition prop_value :: "'a property \<Rightarrow> 'a option" where
  "prop_value p = (case p of Val v \<Rightarrow> Some v | _ \<Rightarrow> None)"

definition schema :: "resource_definition \<Rightarrow> schema option" where
  "schema d = prop_value (schema_prop d)"

definition url :: "resource_definition \<Rightarrow> string option" where
  "url d = prop_value (url_prop d)"

definition params :: "resource_definition \<Rightarrow> jsobj option" where
  "params d = prop_value (params_prop d)"

definition method' :: "resource_definition \<Rightarrow> string option" where
  "method' d = prop_value (method_prop d)"

definition headers :: "resource_definition \<Rightarrow> jsobj option" where
  "headers d = prop_value (headers_prop d)"

definition body :: "resource_definition \<Rightarrow> jsobj option" where
  "body d = prop_value (body_prop d)"

definition auto :: "resource_definition \<Rightarrow> bool option" where
  "auto d = prop_value (auto_prop d)"

definition store :: "resource_definition \<Rightarrow> bool option" where
  "store d = prop_value (store_prop d)"

definition defaultValue :: "resource_definition \<Rightarrow> jsval option" where
  "defaultValue d = prop_value (defaultValue_prop d)"

definition extends :: "resource_definition \<Rightarrow> resource_definition option" where
  "extends d = prop_value (extends_prop d)"

definition isArray :: "resource_definition \<Rightarrow> bool option" where
  "isArray d = prop_value (isArray_prop d)"

definition requestKey' :: "resource_definition \<Rightarrow> nat option" where
  "requestKey' d = prop_value (requestKey_prop d)"

text \<open>The object \<^verbatim>\<open>{}\<close>.\<close>

definition empty_definition :: resource_definition where
  "empty_definition =
     Definition Absent Absent Absent Absent Absent Absent Absent Absent Absent Absent Absent
       Absent Absent Absent Absent Absent"

definition definitionDefaults :: resource_definition where
  "definitionDefaults =
     Definition Absent Absent Absent (Val ''GET'') Absent Absent Absent Absent (Val False)
       Absent Absent (Val Normalizr_normalize) (Val (Obj [])) (Val empty_definition)
       Absent Absent"

text \<open>
  \<^verbatim>\<open>{ ...a, ...b }\<close>: a property \<open>b\<close> has wins, also when its value is \<^verbatim>\<open>undefined\<close>.
\<close>

definition orElse :: "'a property \<Rightarrow> 'a property \<Rightarrow> 'a property" where
  "orElse b a = (case b of Absent \<Rightarrow> a | _ \<Rightarrow> b)"

definition spread :: "resource_definition \<Rightarrow> resource_definition \<Rightarrow> resource_definition" where
  "spread a b =
     Definition (orElse (schema_prop b) (schema_prop a)) (orElse (url_prop b) (url_prop a))
       (orElse (params_prop b) (params_prop a)) (orElse (method_prop b) (method_prop a))
       (orElse (headers_prop b) (headers_prop a)) (orElse (body_prop b) (body_prop a))
       (orElse (auto_prop b) (auto_prop a)) (orElse (store_prop b) (store_prop a))
       (orElse (clientOnly_prop b) (clientOnly_prop a))
       (orElse (defaultValue_prop b) (defaultValue_prop a))
       (orElse (updateStrategy_prop b) (updateStrategy_prop a))
       (orElse (normalize_prop b) (normalize_prop a))
       (orElse (actions_prop b) (actions_prop a)) (orElse (extends_prop b) (extends_prop a))
       (orElse (isArray_prop b) (isArray_prop a))
       (orElse (requestKey_prop b) (requestKey_prop a))"

text \<open>
  \<open>normalizeParams\<close> rewrites an object in place: the property that holds the object
  holds the rewritten one afterwards, and a property that holds no object is as it was.
\<close>

definition rewritten :: "'a property \<Rightarrow> 'a option \<Rightarrow> 'a property" where
  "rewritten p v = (case v of None \<Rightarrow> p | Some x \<Rightarrow> Val x)"

subsection \<open>schemaKey\<close>

text \<open>\<^verbatim>\<open>schema.getKey ? schema.getKey() : schema.getItemSchema().getKey()\<close>; reading
  \<^verbatim>\<open>getKey\<close> of an absent schema throws.\<close>

definition schemaKey :: "resource_definition \<Rightarrow> error + string" where
  "schemaKey d =
     (case schema d of
        None \<Rightarrow> Inl TypeError
      | Some (EntitySchema k) \<Rightarrow> Inr k
      | Some (IterableSchema k) \<Rightarrow> Inr k)"

subsection \<open>requestKey\<close>

text \<open>ToString of a string that may be \<^verbatim>\<open>undefined\<close>.\<close>

definition to_string_opt :: "string option \<Rightarrow> string" where
  "to_string_opt s = (case s of None \<Rightarrow> ''undefined'' | Some x \<Rightarrow> x)"

text \<open>
  \<^verbatim>\<open>stringHash([method, url, normalizeParams(headers), normalizeParams(body)]
  .map(encodeURIComponent).join('|'))\<close>.  The two calls of \<open>normalizeParams\<close> rewrite the
  definition's \<^verbatim>\<open>headers\<close> and \<^verbatim>\<open>body\<close>, which are returned with the key.
\<close>

definition requestKey :: "resource_definition \<Rightarrow> error + (nat \<times> jsobj option \<times> jsobj option)" where
  "requestKey d =
     bind_err (normalizeParams (headers d)) (\<lambda>(hs, headers').
     bind_err (normalizeParams (body d)) (\<lambda>(bs, body').
       Inr (stringHash (join ''|''
              (map encodeURIComponent [to_string_opt (method' d), to_string_opt (url d), hs, bs])),
            headers', body')))"

subsection \<open>fullUrl\<close>

text \<open>\<^verbatim>\<open>url.replace(/\/+$/, '')\<close> removes the slashes the string ends with.\<close>

definition strip_trailing_slashes :: "string \<Rightarrow> string" where
  "strip_trailing_slashes u = rev (dropWhile (\<lambda>c. c = CHR ''/'') (rev u))"

text \<open>
  \<^verbatim>\<open>params && (url = `${url}/?${normalizeParams(params)}`)\<close>: an object is truthy, also
  the empty one.  \<open>normalizeUrl\<close> stands for
  \<^verbatim>\<open>(u) => normalizeUrl(u, { stripWWW: false })\<close>, which may throw.
\<close>

definition fullUrl ::
  "(string \<Rightarrow> string option) \<Rightarrow> string \<Rightarrow> jsobj option \<Rightarrow> error + (string \<times> jsobj option)" where
  "fullUrl normalizeUrl url0 params0 =
     (let url1 = strip_trailing_slashes url0 in
      bind_err
        (case params0 of
           None \<Rightarrow> Inr (url1, None)
         | Some _ \<Rightarrow>
             bind_err (normalizeParams params0) (\<lambda>(q, params'). Inr (url1 @ ''/?'' @ q, params')))
        (\<lambda>(url2, params').
           case normalizeUrl url2 of
             None \<Rightarrow> Inl UrlError
           | Some url3 \<Rightarrow> Inr (url3, params')))"

subsection \<open>normalizeResourceDefinition\<close>

text \<open>\<^verbatim>\<open>/\?[^#]/.test(s)\<close>: somewhere in \<open>s\<close> a question mark is followed by a
  character other than \<^verbatim>\<open>#\<close>.\<close>

fun query_in_url :: "string \<Rightarrow> bool" where
  "query_in_url (c # d # cs) = ((c = CHR ''?'' \<and> d \<noteq> CHR ''#'') \<or> query_in_url (d # cs))"
| "query_in_url _ = False"

text \<open>
  \<^verbatim>\<open>{ ...definitionDefaults, ...(definition.extends || {}), ...definition }\<close>, the first
  statement of the function, then the two \<^verbatim>\<open>invariant\<close> checks and the derived fields
  in the order of the source.  \<^verbatim>\<open>definition.isArray = !definition.schema.getKey\<close>.
\<close>

definition merge_definition :: "resource_definition \<Rightarrow> resource_definition" where
  "merge_definition definition0 =
     spread (spread definitionDefaults
               (case extends definition0 of None \<Rightarrow> empty_definition | Some e \<Rightarrow> e))
       definition0"

definition normalizeResourceDefinition ::
  "(string \<Rightarrow> string option) \<Rightarrow> resource_definition \<Rightarrow> error + resource_definition" where
  "normalizeResourceDefinition normalizeUrl definition0 =
     (let d = merge_definition definition0
      in
      case schema d of
        None \<Rightarrow> Inl InvariantViolation
      | Some sch \<Rightarrow>
          if query_in_url (to_string_opt (url d)) then Inl InvariantViolation
          else
            (case url d of
               None \<Rightarrow> Inl TypeError
             | Some u \<Rightarrow>
                 bind_err (fullUrl normalizeUrl u (params d)) (\<lambda>(url', params').
                   (case method' d of
                      None \<Rightarrow> Inl TypeError
                    | Some m \<Rightarrow>
                        (let method1 = toUpperCase m;
                             isArray' = (case sch of EntitySchema _ \<Rightarrow> False
                                         | IterableSchema _ \<Rightarrow> True);
                             d1 = Definition (schema_prop d) (Val url')
                                    (rewritten (params_prop d) params') (Val method1)
                                    (headers_prop d) (body_prop d) (auto_prop d) (store_prop d)
                                    (clientOnly_prop d) (defaultValue_prop d)
                                    (updateStrategy_prop d) (normalize_prop d) (actions_prop d)
                                    (extends_prop d) (Val isArray') (requestKey_prop d)
                         in
                         bind_err (requestKey d1) (\<lambda>(key, headers', body').
                           (let defaultValue' =
                                  (if defaultValue d1 = None
                                   then Val (if isArray' then Arr [] else Obj [])
                                   else defaultValue_prop d1);
                                auto' = (if method1 = ''GET'' \<and> auto d1 = None
                                         then Val True else auto_prop d1);
                                store' = (if method1 = ''GET'' \<and> store d1 = None
                                          then Val True else store_prop d1)
                            in
                            Inr (Definition (schema_prop d1) (url_prop d1) (params_prop d1)
                                   (method_prop d1) (rewritten (headers_prop d1) headers')
                                   (rewritten (body_prop d1) body') auto' store'
                                   (clientOnly_prop d1) defaultValue' (updateStrategy_prop d1)
                                   (normalize_prop d1) (actions_prop d1) (extends_prop d1)
                                   (isArray_prop d1) (Val key)))))))))"

subsection \<open>The cache state and findInState\<close>

text \<open>
  \<^verbatim>\<open>state.connect\<close> holds the request ledger \<^verbatim>\<open>paramsToResources\<close>, from request
  key to an entry \<^verbatim>\<open>{ meta, data }\<close>, and the entity store \<^verbatim>\<open>resources\<close>, from
  schema key to the entities by id.  Under a schema key, \<^verbatim>\<open>data\<close> holds what the
  request resolved to: an array of ids, or any other value.  Either table may be missing
  from the state.
\<close>

record ledger_entry =
  meta :: jsobj
  data :: "string \<rightharpoonup> jsval"

record connect_state =
  paramsToResources :: "(nat \<rightharpoonup> ledger_entry) option"
  resources :: "(string \<rightharpoonup> jsobj) option"

record app_state =
  connect :: connect_state

text \<open>ToString, which turns an id into the property name it is looked up by.\<close>

fun to_string :: "jsval \<Rightarrow> string" where
  "to_string Undefined = ''undefined''"
| "to_string Null = ''null''"
| "to_string (Bool b) = (if b then ''true'' else ''false'')"
| "to_string (Number n) = show_int (int_of n)"
| "to_string (Str s) = s"
| "to_string (Arr xs) =
     join '','' (map (\<lambda>x. if x = Undefined \<or> x = Null then [] else to_string x) xs)"
| "to_string (Obj _) = ''[object Object]''"

text \<open>\<^verbatim>\<open>v[0]\<close>.\<close>

fun index0 :: "jsval \<Rightarrow> error + jsval" where
  "index0 Undefined = Inl TypeError"
| "index0 Null = Inl TypeError"
| "index0 (Arr xs) = Inr (case xs of [] \<Rightarrow> Undefined | x # _ \<Rightarrow> x)"
| "index0 (Str s) = Inr (case s of [] \<Rightarrow> Undefined | c # _ \<Rightarrow> Str [c])"
| "index0 (Obj ps) = Inr (obj_get ps ''0'')"
| "index0 _ = Inr Undefined"

text \<open>
  \<^verbatim>\<open>resourceKeys.map((id) => resources[key][id])\<close>: only an array has the method
  \<^verbatim>\<open>map\<close>; on any other value that passed the first test the call throws.
\<close>

definition map_ids :: "jsobj \<Rightarrow> jsval \<Rightarrow> error + jsval" where
  "map_ids bucket resourceKeys =
     (case resourceKeys of
        Arr ids \<Rightarrow> Inr (Arr (map (\<lambda>id. obj_get bucket (to_string id)) ids))
      | _ \<Rightarrow> Inl TypeError)"

text \<open>
  The result is the JavaScript value the helper returns: \<^verbatim>\<open>false\<close>, or the object
  \<^verbatim>\<open>{ meta: resourceMap.meta, value: mappedResources }\<close>.  The two tables are read by
  the schema key, and a bucket by the text of an id: the reads are \<open>obj_get\<close> and the
  lookups below when these names are none of \<open>inherited_names\<close>.
\<close>

definition findInState :: "app_state \<Rightarrow> resource_definition \<Rightarrow> error + jsval" where
  "findInState state resourceDefinition =
     (let paramsToResources' = (case paramsToResources (connect state) of
                                  None \<Rightarrow> Map.empty | Some t \<Rightarrow> t);
          resources' = (case resources (connect state) of None \<Rightarrow> Map.empty | Some t \<Rightarrow> t)
      in
      bind_err (schemaKey resourceDefinition) (\<lambda>key.
        (let resourceMap = (case requestKey' resourceDefinition of
                              None \<Rightarrow> None | Some k \<Rightarrow> paramsToResources' k)
         in
         case resourceMap of
           None \<Rightarrow> Inr (Bool False)
         | Some e \<Rightarrow>
             (let resourceKeys = (case data e key of None \<Rightarrow> Undefined | Some v \<Rightarrow> v)
              in
              if \<not> truthy resourceKeys \<or> truthy (obj_get (meta e) ''didInvalidate'')
              then Inr (Bool False)
              else
                bind_err
                  (case resources' key of
                     Some bucket \<Rightarrow> map_ids bucket resourceKeys
                   | None \<Rightarrow> Inr resourceKeys)
                  (\<lambda>mappedResources.
                     bind_err
                       (if \<not> truthy mappedResources
                        then Inr (case defaultValue resourceDefinition of
                                    None \<Rightarrow> Undefined | Some v \<Rightarrow> v)
                        else if isArray resourceDefinition \<noteq> Some True
                        then index0 mappedResources
                        else Inr mappedResources)
                       (\<lambda>value. Inr (Obj [(''meta'', Obj (meta e)), (''value'', value)])))))))"

section \<open>Derived notions\<close>

text \<open>
  The definitions of this section are not functions of the source: they name what the
  helpers compute, so that the theorems can speak about it.

  After the \<^verbatim>\<open>forEach\<close> of \<open>normalizeParams\<close> every value that was an object, an array
  or \<^verbatim>\<open>null\<close> is the string of its JSON text, so \<open>sortObject\<close> meets no nested object:
  it never recurses and never throws.  \<open>stringified\<close> is the object the call leaves
  behind, \<open>listed\<close> the keys that reach the string (an own property \<^verbatim>\<open>__proto__\<close> does
  not), \<open>canonical_params\<close> the string the call returns, and \<open>param_text\<close> the text under
  which one value enters that string.
\<close>

definition stringify_value :: "jsval \<Rightarrow> jsval" where
  "stringify_value v = (if typeof_object v then Str (JSON_stringify v) else v)"

definition stringified :: "jsobj \<Rightarrow> jsobj" where
  "stringified ps = foldl stringify_step ps (keys ps)"

definition listed :: "jsobj \<Rightarrow> string list" where
  "listed ps = filter (\<lambda>k. k \<noteq> ''__proto__'') (keys ps)"


definition canonical_params :: "jsobj \<Rightarrow> string" where
  "canonical_params ps =
     querystring_stringify
       (foldl (\<lambda>obj' key. obj_set obj' key (stringify_value (obj_get ps key))) []
          (sort (listed ps)))"

definition canonical_opt :: "jsobj option \<Rightarrow> string" where
  "canonical_opt arg = (case arg of None \<Rightarrow> [] | Some ps \<Rightarrow> canonical_params ps)"





inductive key_order_equal :: "jsval \<Rightarrow> jsval \<Rightarrow> bool" where
  same: "key_order_equal v v"
| arrays: "list_all2 key_order_equal xs ys \<Longrightarrow> key_order_equal (Arr xs) (Arr ys)"
| objects: "distinct (keys ps) \<Longrightarrow> mset (keys qs) = mset (keys ps) \<Longrightarrow>
     (\<forall>k \<in> set (keys ps). key_order_equal (obj_get ps k) (obj_get qs k)) \<Longrightarrow>
     key_order_equal (Obj ps) (Obj qs)"



definition permuted :: "jsobj option \<Rightarrow> jsobj option \<Rightarrow> bool" where
  "permuted a b =
     (case (a, b) of
        (None, None) \<Rightarrow> True
      | (Some p, Some q) \<Rightarrow> distinct (keys p) \<and> mset q = mset p
      | _ \<Rightarrow> False)"

text \<open>
  The string \<open>requestKey\<close> hashes, the key alone, and a definition that carries only the
  four properties \<open>requestKey\<close> reads.
\<close>

definition hashed_string :: "resource_definition \<Rightarrow> string" where
  "hashed_string d =
     join ''|'' (map encodeURIComponent
       [to_string_opt (method' d), to_string_opt (url d),
        canonical_opt (headers d), canonical_opt (body d)])"

definition requestKey_of :: "resource_definition \<Rightarrow> error + nat" where
  "requestKey_of d = map_sum id fst (requestKey d)"

definition property_of :: "'a option \<Rightarrow> 'a property" where
  "property_of v = (case v of None \<Rightarrow> Absent | Some x \<Rightarrow> Val x)"

definition request ::
  "string \<Rightarrow> string \<Rightarrow> jsobj option \<Rightarrow> jsobj option \<Rightarrow> resource_definition" where
  "request m u h b =
     Definition Absent (Val u) Absent (Val m) (property_of h) (property_of b) Absent Absent
       Absent Absent Absent Absent Absent Absent Absent Absent"

text \<open>
  The string \<open>fullUrl\<close> hands to \<^verbatim>\<open>normalize-url\<close>; what \<open>normalizeResourceDefinition\<close>
  returns once both checks have passed and \<^verbatim>\<open>normalize-url\<close> has returned, as a
  function of the merged definition, its schema, the normalised url and the method; and
  the lower layers of the merge,
  \<^verbatim>\<open>{ ...definitionDefaults, ...(definition.extends || {}) }\<close>.
\<close>

definition target :: "string \<Rightarrow> jsobj option \<Rightarrow> string" where
  "target u ps =
     strip_trailing_slashes u @ (case ps of None \<Rightarrow> [] | Some p \<Rightarrow> ''/?'' @ canonical_params p)"

definition derive ::
  "resource_definition \<Rightarrow> schema \<Rightarrow> string \<Rightarrow> string \<Rightarrow> resource_definition" where
  "derive d sch url1 m =
     (let isArray1 = (case sch of EntitySchema _ \<Rightarrow> False | IterableSchema _ \<Rightarrow> True);
          get = (toUpperCase m = ''GET'')
      in Definition (schema_prop d) (Val url1) (map_property stringified (params_prop d))
           (Val (toUpperCase m))
           (map_property stringified (headers_prop d))
           (map_property stringified (body_prop d))
           (if get \<and> auto d = None then Val True else auto_prop d)
           (if get \<and> store d = None then Val True else store_prop d)
           (clientOnly_prop d)
           (if defaultValue d = None then Val (if isArray1 then Arr [] else Obj [])
            else defaultValue_prop d)
           (updateStrategy_prop d) (normalize_prop d) (actions_prop d) (extends_prop d)
           (Val isArray1)
           (Val (stringHash (join ''|'' (map encodeURIComponent
              [toUpperCase m, url1, canonical_opt (headers d), canonical_opt (body d)])))))"

definition inherited :: "resource_definition \<Rightarrow> resource_definition" where
  "inherited raw =
     spread definitionDefaults (case extends raw of None \<Rightarrow> empty_definition | Some e \<Rightarrow> e)"

text \<open>
  The two tables of a state with their defaults, what an entry records under a schema
  key, the check of \<^verbatim>\<open>meta.didInvalidate\<close>, and the list \<open>findInState\<close> builds from
  recorded ids.
\<close>

definition ledger_of :: "app_state \<Rightarrow> nat \<rightharpoonup> ledger_entry" where
  "ledger_of st = (case paramsToResources (connect st) of None \<Rightarrow> Map.empty | Some t \<Rightarrow> t)"

definition store_of :: "app_state \<Rightarrow> string \<rightharpoonup> jsobj" where
  "store_of st = (case resources (connect st) of None \<Rightarrow> Map.empty | Some t \<Rightarrow> t)"

definition recorded :: "ledger_entry \<Rightarrow> string \<Rightarrow> jsval" where
  "recorded e key = (case data e key of None \<Rightarrow> Undefined | Some v \<Rightarrow> v)"

definition didInvalidate :: "ledger_entry \<Rightarrow> bool" where
  "didInvalidate e = truthy (obj_get (meta e) ''didInvalidate'')"

definition mapped :: "app_state \<Rightarrow> string \<Rightarrow> jsval list \<Rightarrow> jsval list" where
  "mapped st key ids =
     (case store_of st key of
        Some bucket \<Rightarrow> map (\<lambda>id. obj_get bucket (to_string id)) ids
      | None \<Rightarrow> ids)"

text \<open>An array is an array of ids; anything else an entry records is a single value.\<close>

fun is_array :: "jsval \<Rightarrow> bool" where
  "is_array (Arr _) = True"
| "is_array _ = False"

text \<open>
  Concrete data for the examples: a state with one ledger entry, under a given request
  key, and two users in the entity store; a definition with the request key \<open>7\<close>; and raw
  definitions of the resource \<^verbatim>\<open>http://a.com\<close>, and of a resource without a url.
  In the examples \<open>Some\<close> stands for \<^verbatim>\<open>normalize-url\<close>: it returns the string it is
  given, as the package does on \<^verbatim>\<open>http://a.com\<close> and on \<^verbatim>\<open>http://a.com/?q=x\<close>.
\<close>

definition ledger_state :: "nat \<Rightarrow> bool \<Rightarrow> jsval \<Rightarrow> app_state" where
  "ledger_state rk invalid v =
     \<lparr>connect =
        \<lparr>paramsToResources =
           Some [rk \<mapsto> \<lparr>meta = [(''isFetching'', Bool False), (''didInvalidate'', Bool invalid)],
                        data = [''user'' \<mapsto> v]\<rparr>],
         resources =
           Some [''user'' \<mapsto> [(''1'', Obj [(''name'', Str ''A'')]),
                                (''2'', Obj [(''name'', Str ''B'')])]]\<rparr>\<rparr>"

definition users_state :: "nat \<Rightarrow> bool \<Rightarrow> jsval list \<Rightarrow> app_state" where
  "users_state rk invalid ids = ledger_state rk invalid (Arr ids)"

definition users_definition :: "schema \<Rightarrow> bool \<Rightarrow> jsval \<Rightarrow> resource_definition" where
  "users_definition sch arr dflt =
     Definition (Val sch) (Val ''http://a.com/users'') Absent (Val ''GET'') Absent Absent
       (Val True) (Val True) (Val False) (Val dflt) Absent (Val Normalizr_normalize)
       (Val (Obj [])) (Val empty_definition) (Val arr) (Val 7)"

definition user_resource :: "string option \<Rightarrow> jsobj option \<Rightarrow> resource_definition" where
  "user_resource m ps =
     Definition (Val (EntitySchema ''user'')) (Val ''http://a.com'') (property_of ps)
       (property_of m) Absent Absent Absent Absent Absent Absent Absent Absent Absent Absent
       Absent Absent"

definition resource_without_url :: resource_definition where
  "resource_without_url =
     Definition (Val (EntitySchema ''user'')) Absent Absent Absent Absent Absent Absent Absent
       Absent Absent Absent Absent Absent Absent Absent Absent"

section \<open>Lemmas\<close>

subsection \<open>Evaluation on concrete data\<close>

text \<open>Unfolding rules for evaluating the helpers on concrete data.\<close>

named_theorems js_eval

lemmas [js_eval] = canonical_params_def listed_def keys_def obj_get_def obj_set_def
  stringify_value_def querystring_stringify_def encodeURIComponent_def encode_char_def
  unreserved_def pct_def hex_upper_def show_int_def show_nat.simps digit_char_def
  is_array_index_def is_digit_def read_nat_def json_quote_def json_escape_def Let_def

lemmas field_eval = schema_def url_def params_def method'_def headers_def body_def auto_def
  store_def defaultValue_def extends_def isArray_def requestKey'_def prop_value_def
  property_of_def

lemma request_fields:
  "method' (request m u h b) = Some m" "url (request m u h b) = Some u"
  "headers (request m u h b) = h" "body (request m u h b) = b"
  by (simp_all add: request_def field_eval split: option.splits)

lemmas request_eval = request_fields permuted_def keys_def

lemmas hashed_eval = hashed_string_def canonical_opt_def request_fields to_string_opt_def

lemmas resolver_eval = ledger_state_def users_state_def users_definition_def ledger_of_def
  store_of_def didInvalidate_def recorded_def schemaKey_def obj_get_def field_eval

lemmas normalize_eval = user_resource_def resource_without_url_def merge_definition_def
  spread_def orElse_def definitionDefaults_def empty_definition_def field_eval

subsection \<open>normalizeParams never throws\<close>

lemma typeof_object_cases:
  "\<not> typeof_object v \<Longrightarrow>
     (case v of Null \<Rightarrow> Inl TypeError
      | Arr xs \<Rightarrow> f xs | Obj ps \<Rightarrow> g ps | w \<Rightarrow> Inr w) = (Inr v :: error + jsval)"
  by (cases v) simp_all

lemma sortObject_fold_flat:
  assumes "\<And>k. \<not> typeof_object (obj_get obj k)"
  shows "foldl (\<lambda>acc key.
        bind_err acc (\<lambda>obj'.
          bind_err
            (case obj_get obj key of
               Null \<Rightarrow> Inl TypeError
             | Arr xs \<Rightarrow> map_sum id Obj (sortObject (arr_props xs))
             | Obj ps \<Rightarrow> map_sum id Obj (sortObject ps)
             | v \<Rightarrow> Inr v)
            (\<lambda>v. Inr (assign obj' key v)))) (Inr acc0) ks
     = Inr (foldl (\<lambda>obj' key. assign obj' key (obj_get obj key)) acc0 ks)"
    (is "foldl ?F (Inr acc0) ks = _")
proof -
  have step: "?F (Inr acc) k = Inr (assign acc k (obj_get obj k))" for acc k
    by (simp add: bind_err_def typeof_object_cases[OF assms])
  show ?thesis
  proof (induction ks arbitrary: acc0)
    case Nil
    show ?case by simp
  next
    case (Cons k ks)
    have "foldl ?F (Inr acc0) (k # ks) = foldl ?F (?F (Inr acc0) k) ks"
      by (rule foldl_Cons)
    also have "\<dots> = foldl ?F (Inr (assign acc0 k (obj_get obj k))) ks"
      by (simp only: step)
    also have "\<dots> = Inr (foldl (\<lambda>obj' key. assign obj' key (obj_get obj key))
                          (assign acc0 k (obj_get obj k)) ks)"
      by (rule Cons.IH)
    finally show ?case by simp
  qed
qed

lemma foldl_assign:
  "foldl (\<lambda>obj' key. assign obj' key (f key)) acc ks =
   foldl (\<lambda>obj' key. obj_set obj' key (f key)) acc (filter (\<lambda>k. k \<noteq> ''__proto__'') ks)"
  by (induction ks arbitrary: acc) (simp_all add: assign_def)

lemma sortObject_flat:
  assumes "\<And>k. \<not> typeof_object (obj_get obj k)"
  shows "sortObject obj =
     Inr (foldl (\<lambda>obj' key. obj_set obj' key (obj_get obj key)) [] (sort (listed obj)))"
proof -
  have "sortObject obj =
      Inr (foldl (\<lambda>obj' key. assign obj' key (obj_get obj key)) [] (sort (keys obj)))"
    by (subst sortObject.simps) (rule sortObject_fold_flat[OF assms])
  then show ?thesis by (simp add: foldl_assign listed_def filter_sort)
qed

lemma keys_obj_set_present: "k \<in> set (keys ps) \<Longrightarrow> keys (obj_set ps k v) = keys ps"
  by (auto simp: keys_def obj_set_def split: prod.splits)

lemma map_of_replace:
  "map_of (map (\<lambda>(k', v'). if k' = k then (k', v) else (k', v')) ps) k'' =
     (if k'' = k then (if k \<in> fst ` set ps then Some v else None) else map_of ps k'')"
  by (induction ps) force+

lemma obj_get_obj_set_present:
  "k \<in> set (keys ps) \<Longrightarrow> obj_get (obj_set ps k v) k' = (if k' = k then v else obj_get ps k')"
  by (simp add: obj_get_def obj_set_def keys_def map_of_replace)

lemma keys_stringify_step: "k \<in> set (keys ps) \<Longrightarrow> keys (stringify_step ps k) = keys ps"
  by (simp add: stringify_step_def keys_obj_set_present)

lemma obj_get_stringify_step:
  "k \<in> set (keys ps) \<Longrightarrow>
   obj_get (stringify_step ps k) k' = (if k' = k then stringify_value (obj_get ps k) else obj_get ps k')"
  by (simp add: stringify_step_def stringify_value_def obj_get_obj_set_present)

lemma stringify_value_idem [simp]: "stringify_value (stringify_value v) = stringify_value v"
  by (simp add: stringify_value_def)

lemma keys_foldl_stringify:
  "set ks \<subseteq> set (keys ps) \<Longrightarrow> keys (foldl stringify_step ps ks) = keys ps"
  by (induction ks arbitrary: ps) (simp_all add: keys_stringify_step)

lemma obj_get_foldl_stringify:
  "set ks \<subseteq> set (keys ps) \<Longrightarrow>
   obj_get (foldl stringify_step ps ks) k =
     (if k \<in> set ks then stringify_value (obj_get ps k) else obj_get ps k)"
proof (induction ks arbitrary: ps)
  case Nil
  show ?case by simp
next
  case (Cons a ks)
  then have a: "a \<in> set (keys ps)" and ks: "set ks \<subseteq> set (keys (stringify_step ps a))"
    by (simp_all add: keys_stringify_step)
  show ?case
    by (simp add: Cons.IH[OF ks] obj_get_stringify_step[OF a])
qed

lemma obj_get_absent: "k \<notin> set (keys ps) \<Longrightarrow> obj_get ps k = Undefined"
  by (auto simp: obj_get_def keys_def image_iff split: option.splits dest!: map_of_SomeD)

lemma obj_get_stringified:
  "obj_get (foldl stringify_step ps (keys ps)) k = stringify_value (obj_get ps k)"
  by (cases "k \<in> set (keys ps)")
     (simp_all add: obj_get_foldl_stringify obj_get_absent stringify_value_def)

lemma not_object_stringified:
  "\<not> typeof_object (obj_get (foldl stringify_step ps (keys ps)) k)"
  by (simp add: obj_get_stringified stringify_value_def)

lemma normalizeParams_Some:
  "normalizeParams (Some ps) = Inr (canonical_params ps, Some (foldl stringify_step ps (keys ps)))"
  by (simp add: normalizeParams_def Let_def sortObject_flat[OF not_object_stringified]
      bind_err_def canonical_params_def obj_get_stringified keys_foldl_stringify listed_def)

lemma normalizeParams_None:
  "normalizeParams None = Inr ([], None)"
  by (simp add: normalizeParams_def Let_def 
      bind_err_def keys_def sortObject.simps querystring_stringify_def)


lemma normalizeParams_eq:
  "normalizeParams arg = Inr (canonical_opt arg, map_option stringified arg)"
  by (cases arg) (simp_all add: normalizeParams_None normalizeParams_Some canonical_opt_def
      stringified_def)

subsection \<open>Permuting the properties of an object\<close>

lemma perm_sort_keys: "mset q = mset p \<Longrightarrow> sort (listed q) = sort (listed p)"
proof -
  assume "mset q = mset p"
  then have "mset (keys q) = mset (keys p)"
    unfolding keys_def by (metis mset_map)
  then have "mset (listed q) = mset (listed p)"
    unfolding listed_def by (metis mset_filter)
  then show ?thesis
    by (metis properties_for_sort sorted_sort mset_sort)
qed

lemma perm_obj_get:
  assumes "distinct (keys p)" "mset q = mset p"
  shows "obj_get q k = obj_get p k"
proof -
  have "mset (keys q) = mset (keys p)"
    using assms(2) unfolding keys_def by (metis mset_map)
  then have "distinct (keys q)"
    using assms(1) by (metis mset_eq_imp_distinct_iff)
  moreover have "set q = set p" using assms(2) by (rule mset_eq_setD)
  ultimately have "map_of q = map_of p"
    using assms(1) unfolding keys_def by (simp add: map_of_inject_set)
  then show ?thesis by (simp add: obj_get_def)
qed

lemma canonical_params_perm:
  assumes "distinct (keys p)" "mset q = mset p"
  shows "canonical_params q = canonical_params p"
  by (simp add: canonical_params_def perm_sort_keys[OF assms(2)] perm_obj_get[OF assms])

subsection \<open>encodeURIComponent is injective and writes no separator\<close>

lemma hex_upper_mem: "n < 16 \<Longrightarrow> hex_upper n \<in> set ''0123456789ABCDEF''"
  unfolding hex_upper_def by (rule nth_mem) simp

lemma hex_upper_inj: "m < 16 \<Longrightarrow> n < 16 \<Longrightarrow> hex_upper m = hex_upper n \<Longrightarrow> m = n"
  unfolding hex_upper_def
  by (subst (asm) nth_eq_iff_index_eq) simp_all

lemma pct_inj:
  assumes "a < 256" "b < 256" "pct a @ x = pct b @ y"
  shows "a = b \<and> x = y"
proof -
  from assms(3) have h: "hex_upper (a div 16) = hex_upper (b div 16)"
    and l: "hex_upper (a mod 16) = hex_upper (b mod 16)" and xy: "x = y"
    by (simp_all add: pct_def)
  from assms(1,2) have "a div 16 < 16" "b div 16 < 16" by simp_all
  with h have "a div 16 = b div 16" by (rule hex_upper_inj[rotated 2])
  moreover from l have "a mod 16 = b mod 16" by (rule hex_upper_inj[rotated 2]) simp_all
  ultimately have "a = b" by (metis div_mult_mod_eq)
  with xy show ?thesis by simp
qed

lemma percent_reserved: "\<not> unreserved CHR ''%''"
  by (simp add: unreserved_def)

lemma encode_char_unreserved: "unreserved c \<Longrightarrow> encode_char c = [c]"
  by (simp add: encode_char_def)

lemma encode_char_reserved:
  "\<not> unreserved c \<Longrightarrow> \<exists>b r. b < 256 \<and> encode_char c = pct b @ r"
proof -
  assume "\<not> unreserved c"
  have "(of_char c :: nat) < 256" by simp
  then have "192 + (of_char c :: nat) div 64 < 256" by arith
  then show ?thesis using \<open>\<not> unreserved c\<close> \<open>(of_char c :: nat) < 256\<close>
    unfolding encode_char_def Let_def by (metis append_Nil2)
qed

lemma encode_char_ur:
  assumes "unreserved c" "\<not> unreserved d" shows "encode_char c @ x \<noteq> encode_char d @ y"
proof
  assume e: "encode_char c @ x = encode_char d @ y"
  from encode_char_reserved[OF assms(2)] obtain b r where "encode_char d = pct b @ r" by blast
  with e assms(1) have "c = CHR ''%''" by (simp add: encode_char_unreserved pct_def)
  with assms(1) percent_reserved show False by simp
qed

lemma div_mod_64_eq: "(m::nat) div 64 = n div 64 \<Longrightarrow> m mod 64 = n mod 64 \<Longrightarrow> m = n"
  by (metis div_mult_mod_eq)

lemma encode_char_rr:
  assumes "\<not> unreserved c" "\<not> unreserved d" "encode_char c @ x = encode_char d @ y"
  shows "c = d \<and> x = y"
proof -
  let ?m = "of_char c :: nat" and ?n = "of_char d :: nat"
  have bm: "?m < 256" and bn: "?n < 256" by simp_all
  have hm: "192 + ?m div 64 < 256" and hn: "192 + ?n div 64 < 256" using bm bn by arith+
  have lm: "128 + ?m mod 64 < 256" and ln: "128 + ?n mod 64 < 256" by arith+
  have ec: "encode_char c = (if ?m < 128 then pct ?m else pct (192 + ?m div 64) @ pct (128 + ?m mod 64))"
    using assms(1) by (simp add: encode_char_def Let_def)
  have ed: "encode_char d = (if ?n < 128 then pct ?n else pct (192 + ?n div 64) @ pct (128 + ?n mod 64))"
    using assms(2) by (simp add: encode_char_def Let_def)
  consider (ll) "?m < 128" "?n < 128" | (lh) "?m < 128" "\<not> ?n < 128"
    | (hl) "\<not> ?m < 128" "?n < 128" | (hh) "\<not> ?m < 128" "\<not> ?n < 128"
    by blast
  then have "?m = ?n \<and> x = y"
  proof cases
    case ll
    with assms(3) ec ed have "pct ?m @ x = pct ?n @ y" by simp
    from pct_inj[OF bm bn this] show ?thesis .
  next
    case lh
    with assms(3) ec ed
    have "pct ?m @ x = pct (192 + ?n div 64) @ (pct (128 + ?n mod 64) @ y)" by simp
    from pct_inj[OF bm hn this] lh(1) show ?thesis by arith
  next
    case hl
    with assms(3) ec ed
    have "pct (192 + ?m div 64) @ (pct (128 + ?m mod 64) @ x) = pct ?n @ y" by simp
    from pct_inj[OF hm bn this] hl(2) show ?thesis by arith
  next
    case hh
    with assms(3) ec ed
    have e: "pct (192 + ?m div 64) @ (pct (128 + ?m mod 64) @ x) =
          pct (192 + ?n div 64) @ (pct (128 + ?n mod 64) @ y)" by simp
    from pct_inj[OF hm hn e] have d: "?m div 64 = ?n div 64"
      and e2: "pct (128 + ?m mod 64) @ x = pct (128 + ?n mod 64) @ y" by simp_all
    from pct_inj[OF lm ln e2] have m: "?m mod 64 = ?n mod 64" and xy: "x = y" by simp_all
    from div_mod_64_eq[OF d m] xy show ?thesis by simp
  qed
  then show ?thesis by simp
qed

lemma encode_char_prefix:
  assumes "encode_char c @ x = encode_char d @ y"
  shows "c = d \<and> x = y"
proof -
  consider (uu) "unreserved c" "unreserved d"
    | (ur) "unreserved c" "\<not> unreserved d"
    | (ru) "\<not> unreserved c" "unreserved d"
    | (rr) "\<not> unreserved c" "\<not> unreserved d"
    by blast
  then show ?thesis
  proof cases
    case uu
    with assms show ?thesis by (simp add: encode_char_unreserved)
  next
    case ur
    from encode_char_ur[OF ur] assms show ?thesis by blast
  next
    case ru
    from encode_char_ur[OF ru(2) ru(1), of y x] assms show ?thesis by simp
  next
    case rr
    from encode_char_rr[OF rr assms] show ?thesis .
  qed
qed

lemma encode_char_not_Nil: "encode_char c \<noteq> []"
  by (simp add: encode_char_def Let_def pct_def)

lemma encodeURIComponent_inj:
  "encodeURIComponent s = encodeURIComponent t \<Longrightarrow> s = t"
proof (induction s arbitrary: t)
  case Nil
  then show ?case
    by (cases t) (simp_all add: encodeURIComponent_def encode_char_not_Nil)
next
  case (Cons c s)
  show ?case
  proof (cases t)
    case Nil
    with Cons.prems show ?thesis
      by (simp add: encodeURIComponent_def encode_char_not_Nil)
  next
    case (Cons d t')
    with Cons.prems have "encode_char c @ encodeURIComponent s = encode_char d @ encodeURIComponent t'"
      by (simp add: encodeURIComponent_def)
    from encode_char_prefix[OF this] Cons.IH Cons show ?thesis by simp
  qed
qed

lemma hex_upper_unreserved: "n < 16 \<Longrightarrow> unreserved (hex_upper n)"
proof -
  assume "n < 16"
  then have "hex_upper n \<in> set ''0123456789ABCDEF''" by (rule hex_upper_mem)
  then show ?thesis by (auto simp: unreserved_def)
qed

lemma pct_chars: "b < 256 \<Longrightarrow> c \<in> set (pct b) \<Longrightarrow> unreserved c \<or> c = CHR ''%''"
proof -
  assume b: "b < 256" and c: "c \<in> set (pct b)"
  from b have "b div 16 < 16" by arith
  then have 1: "unreserved (hex_upper (b div 16))" by (rule hex_upper_unreserved)
  have 2: "unreserved (hex_upper (b mod 16))" by (rule hex_upper_unreserved) simp
  from c 1 2 show ?thesis by (auto simp: pct_def)
qed

lemma encode_char_chars: "x \<in> set (encode_char c) \<Longrightarrow> unreserved x \<or> x = CHR ''%''"
proof -
  assume x: "x \<in> set (encode_char c)"
  let ?m = "of_char c :: nat"
  have bm: "?m < 256" by simp
  then have hm: "192 + ?m div 64 < 256" by arith
  have lm: "128 + ?m mod 64 < 256" by arith
  from x pct_chars[OF bm] pct_chars[OF hm] pct_chars[OF lm] show ?thesis
    by (auto simp: encode_char_def Let_def split: if_splits)
qed

lemma encodeURIComponent_chars:
  "x \<in> set (encodeURIComponent s) \<Longrightarrow> unreserved x \<or> x = CHR ''%''"
  by (auto simp: encodeURIComponent_def dest: encode_char_chars)

lemma separators_reserved:
  "\<not> unreserved CHR ''|''" "\<not> unreserved CHR ''&''" "\<not> unreserved CHR ''=''"
  by (simp_all add: unreserved_def)

lemma encodeURIComponent_no_separator:
  "CHR ''|'' \<notin> set (encodeURIComponent s)" "CHR ''&'' \<notin> set (encodeURIComponent s)"
  "CHR ''='' \<notin> set (encodeURIComponent s)"
  using encodeURIComponent_chars[of _ s] separators_reserved by auto

lemma split_at_separator:
  "c \<notin> set a \<Longrightarrow> c \<notin> set a' \<Longrightarrow> a @ c # r = a' @ c # r' \<Longrightarrow> a = a' \<and> r = r'"
proof (induction a arbitrary: a')
  case Nil
  then show ?case by (cases a') auto
next
  case (Cons x a)
  then show ?case by (cases a') auto
qed



subsection \<open>querystring.stringify is injective up to the text of the values\<close>






subsection \<open>Assignment to a property\<close>












subsection \<open>When two canonical strings are equal\<close>










subsection \<open>requestKey and fullUrl in closed form\<close>

lemma requestKey_eq:
  "requestKey d = Inr (stringHash (hashed_string d),
                       map_option stringified (headers d), map_option stringified (body d))"
  by (simp add: requestKey_def normalizeParams_eq bind_err_def hashed_string_def)

lemma requestKey_of_eq: "requestKey_of d = Inr (stringHash (hashed_string d))"
  by (simp add: requestKey_of_def requestKey_eq)

lemma fullUrl_eq:
  "fullUrl normalizeUrl u ps =
     (case normalizeUrl (target u ps) of
        None \<Rightarrow> Inl UrlError
      | Some url1 \<Rightarrow> Inr (url1, map_option stringified ps))"
  by (cases ps)
     (simp_all add: fullUrl_def normalizeParams_eq bind_err_def canonical_opt_def target_def
        split: option.splits)

lemma hashed_string_eq_iff:
  "hashed_string d = hashed_string d' \<longleftrightarrow>
     to_string_opt (method' d) = to_string_opt (method' d') \<and>
     to_string_opt (url d) = to_string_opt (url d') \<and>
     canonical_opt (headers d) = canonical_opt (headers d') \<and>
     canonical_opt (body d) = canonical_opt (body d')"
proof
  assume "hashed_string d = hashed_string d'"
  then have "join [CHR ''|''] (map encodeURIComponent
       [to_string_opt (method' d), to_string_opt (url d),
        canonical_opt (headers d), canonical_opt (body d)]) =
     join [CHR ''|''] (map encodeURIComponent
       [to_string_opt (method' d'), to_string_opt (url d'),
        canonical_opt (headers d'), canonical_opt (body d')])"
    by (simp add: hashed_string_def)
  then have e: "encodeURIComponent (to_string_opt (method' d)) @ CHR ''|'' #
        (encodeURIComponent (to_string_opt (url d)) @ CHR ''|'' #
          (encodeURIComponent (canonical_opt (headers d)) @ CHR ''|'' #
            encodeURIComponent (canonical_opt (body d)))) =
      encodeURIComponent (to_string_opt (method' d')) @ CHR ''|'' #
        (encodeURIComponent (to_string_opt (url d')) @ CHR ''|'' #
          (encodeURIComponent (canonical_opt (headers d')) @ CHR ''|'' #
            encodeURIComponent (canonical_opt (body d'))))"
    by simp
  note n = encodeURIComponent_no_separator(1)
  from split_at_separator[OF n n e]
  have 1: "encodeURIComponent (to_string_opt (method' d)) =
           encodeURIComponent (to_string_opt (method' d'))"
    and e2: "encodeURIComponent (to_string_opt (url d)) @ CHR ''|'' #
          (encodeURIComponent (canonical_opt (headers d)) @ CHR ''|'' #
            encodeURIComponent (canonical_opt (body d))) =
        encodeURIComponent (to_string_opt (url d')) @ CHR ''|'' #
          (encodeURIComponent (canonical_opt (headers d')) @ CHR ''|'' #
            encodeURIComponent (canonical_opt (body d')))"
    by simp_all
  from split_at_separator[OF n n e2]
  have 2: "encodeURIComponent (to_string_opt (url d)) =
           encodeURIComponent (to_string_opt (url d'))"
    and e3: "encodeURIComponent (canonical_opt (headers d)) @ CHR ''|'' #
            encodeURIComponent (canonical_opt (body d)) =
          encodeURIComponent (canonical_opt (headers d')) @ CHR ''|'' #
            encodeURIComponent (canonical_opt (body d'))"
    by simp_all
  from split_at_separator[OF n n e3]
  have 3: "encodeURIComponent (canonical_opt (headers d)) =
           encodeURIComponent (canonical_opt (headers d'))"
    and 4: "encodeURIComponent (canonical_opt (body d)) =
            encodeURIComponent (canonical_opt (body d'))"
    by simp_all
  from 1 2 3 4 show "to_string_opt (method' d) = to_string_opt (method' d') \<and>
     to_string_opt (url d) = to_string_opt (url d') \<and>
     canonical_opt (headers d) = canonical_opt (headers d') \<and>
     canonical_opt (body d) = canonical_opt (body d')"
    by (simp add: encodeURIComponent_inj)
next
  assume "to_string_opt (method' d) = to_string_opt (method' d') \<and>
     to_string_opt (url d) = to_string_opt (url d') \<and>
     canonical_opt (headers d) = canonical_opt (headers d') \<and>
     canonical_opt (body d) = canonical_opt (body d')"
  then show "hashed_string d = hashed_string d'" by (simp add: hashed_string_def)
qed

lemma canonical_opt_permuted: "permuted a b \<Longrightarrow> canonical_opt b = canonical_opt a"
  by (cases a; cases b) (simp_all add: permuted_def canonical_opt_def canonical_params_perm)

lemma hashed_string_permuted:
  assumes "method' d' = method' d" and "url d' = url d"
    and "permuted (headers d) (headers d')" and "permuted (body d) (body d')"
  shows "hashed_string d' = hashed_string d"
  using assms by (simp add: hashed_string_eq_iff canonical_opt_permuted)

lemma obj_get_stringified_object:
  "typeof_object (obj_get hs key) \<Longrightarrow>
     obj_get (stringified hs) key = Str (JSON_stringify (obj_get hs key))"
  by (simp add: stringified_def obj_get_stringified stringify_value_def)

subsection \<open>The branches of findInState\<close>

lemma findInState_miss_no_key:
  assumes "schemaKey d = Inr key" "requestKey' d = None"
  shows "findInState st d = Inr (Bool False)"
  using assms by (simp add: findInState_def bind_err_def Let_def)

lemma findInState_miss_no_entry:
  assumes "schemaKey d = Inr key" "requestKey' d = Some rk" "ledger_of st rk = None"
  shows "findInState st d = Inr (Bool False)"
  using assms by (simp add: findInState_def ledger_of_def bind_err_def Let_def)

lemma findInState_miss_falsy:
  assumes "schemaKey d = Inr key" "requestKey' d = Some rk" "ledger_of st rk = Some e"
    "\<not> truthy (recorded e key)"
  shows "findInState st d = Inr (Bool False)"
  using assms by (simp add: findInState_def ledger_of_def recorded_def bind_err_def Let_def)

lemma findInState_miss_invalid:
  assumes "schemaKey d = Inr key" "requestKey' d = Some rk" "ledger_of st rk = Some e"
    "didInvalidate e"
  shows "findInState st d = Inr (Bool False)"
  using assms by (simp add: findInState_def ledger_of_def bind_err_def Let_def didInvalidate_def)

lemma recorded_array: "data e key = Some (Arr ids) \<Longrightarrow> recorded e key = Arr ids"
  by (simp add: recorded_def)

lemma findInState_hit:
  assumes "schemaKey d = Inr key" "requestKey' d = Some rk" "ledger_of st rk = Some e"
    "recorded e key = Arr ids" "\<not> didInvalidate e"
  shows "findInState st d =
     Inr (Obj [(''meta'', Obj (meta e)),
               (''value'', if isArray d = Some True then Arr (mapped st key ids)
                           else (case mapped st key ids of [] \<Rightarrow> Undefined | x # _ \<Rightarrow> x))])"
  using assms
  by (simp add: findInState_def ledger_of_def store_of_def recorded_def bind_err_def Let_def
      didInvalidate_def mapped_def map_ids_def split: option.splits)

lemma findInState_throws:
  assumes "schemaKey d = Inr key" "requestKey' d = Some rk" "ledger_of st rk = Some e"
    "truthy (recorded e key)" "\<not> is_array (recorded e key)" "\<not> didInvalidate e"
    "store_of st key = Some bucket"
  shows "findInState st d = Inl TypeError"
proof -
  from assms(5) have "map_ids bucket (recorded e key) = Inl TypeError"
    by (cases "recorded e key") (simp_all add: map_ids_def)
  with assms(1-4,6,7) show ?thesis
    by (simp add: findInState_def ledger_of_def store_of_def recorded_def bind_err_def Let_def
        didInvalidate_def)
qed

lemma index0_truthy: "truthy v \<Longrightarrow> \<exists>w. index0 v = Inr w"
  by (cases v) simp_all

lemma findInState_literal:
  assumes "schemaKey d = Inr key" "requestKey' d = Some rk" "ledger_of st rk = Some e"
    "truthy (recorded e key)" "\<not> didInvalidate e" "store_of st key = None"
  shows "\<exists>v. findInState st d = Inr (Obj [(''meta'', Obj (meta e)), (''value'', v)])"
proof -
  from index0_truthy[OF assms(4)] obtain w where "index0 (recorded e key) = Inr w" ..
  with assms show ?thesis
    by (simp add: findInState_def ledger_of_def store_of_def recorded_def bind_err_def Let_def
        didInvalidate_def)
qed

text \<open>The conditions under which nothing is found, and the three outcomes.\<close>

lemma findInState_outcome:
  assumes "schemaKey d = Inr key" and "requestKey' d = Some rk"
  shows "(ledger_of st rk = None \<or>
          (\<exists>e. ledger_of st rk = Some e \<and> (\<not> truthy (recorded e key) \<or> didInvalidate e)) \<longrightarrow>
            findInState st d = Inr (Bool False)) \<and>
         (\<forall>e. ledger_of st rk = Some e \<and> truthy (recorded e key) \<and> \<not> didInvalidate e \<longrightarrow>
            (if is_array (recorded e key) \<or> store_of st key = None
             then \<exists>v. findInState st d = Inr (Obj [(''meta'', Obj (meta e)), (''value'', v)])
             else findInState st d = Inl TypeError))"
proof (intro conjI impI allI)
  assume "ledger_of st rk = None \<or>
          (\<exists>e. ledger_of st rk = Some e \<and> (\<not> truthy (recorded e key) \<or> didInvalidate e))"
  then show "findInState st d = Inr (Bool False)"
  proof (elim disjE exE conjE)
    assume "ledger_of st rk = None"
    then show ?thesis by (rule findInState_miss_no_entry[OF assms])
  next
    fix e assume "ledger_of st rk = Some e" "\<not> truthy (recorded e key)"
    then show ?thesis by (rule findInState_miss_falsy[OF assms])
  next
    fix e assume "ledger_of st rk = Some e" "didInvalidate e"
    then show ?thesis by (rule findInState_miss_invalid[OF assms])
  qed
next
  fix e
  assume h: "ledger_of st rk = Some e \<and> truthy (recorded e key) \<and> \<not> didInvalidate e"
  then have l: "ledger_of st rk = Some e" and t: "truthy (recorded e key)"
    and v: "\<not> didInvalidate e" by simp_all
  show "if is_array (recorded e key) \<or> store_of st key = None
        then \<exists>v. findInState st d = Inr (Obj [(''meta'', Obj (meta e)), (''value'', v)])
        else findInState st d = Inl TypeError"
  proof (cases "is_array (recorded e key)")
    case True
    then obtain ids where "recorded e key = Arr ids" by (cases "recorded e key") simp_all
    from findInState_hit[OF assms l this v] True show ?thesis by simp
  next
    case False
    show ?thesis
    proof (cases "store_of st key")
      case None
      from findInState_literal[OF assms l t v None] None show ?thesis by simp
    next
      case (Some bucket)
      from findInState_throws[OF assms l t False v Some] False Some show ?thesis by simp
    qed
  qed
qed

lemma findInState_miss_iff_general:
  assumes "schemaKey d = Inr key" and "requestKey' d = Some rk"
  shows "(findInState st d = Inr (Bool False)) =
           (ledger_of st rk = None \<or>
            (\<exists>e. ledger_of st rk = Some e \<and> (\<not> truthy (recorded e key) \<or> didInvalidate e)))"
proof
  assume f: "findInState st d = Inr (Bool False)"
  show "ledger_of st rk = None \<or>
        (\<exists>e. ledger_of st rk = Some e \<and> (\<not> truthy (recorded e key) \<or> didInvalidate e))"
  proof (rule ccontr)
    assume n: "\<not> (ledger_of st rk = None \<or>
        (\<exists>e. ledger_of st rk = Some e \<and> (\<not> truthy (recorded e key) \<or> didInvalidate e)))"
    then obtain e where e: "ledger_of st rk = Some e" by auto
    with n have "truthy (recorded e key)" "\<not> didInvalidate e" by auto
    with findInState_outcome[OF assms, of st] e f show False
      by (auto split: if_splits)
  qed
next
  assume "ledger_of st rk = None \<or>
        (\<exists>e. ledger_of st rk = Some e \<and> (\<not> truthy (recorded e key) \<or> didInvalidate e))"
  with findInState_outcome[OF assms, of st] show "findInState st d = Inr (Bool False)"
    by blast
qed

lemma show_int_1: "show_int 1 = ''1''" and show_int_2: "show_int 2 = ''2''"
  by (simp_all add: show_int_def show_nat.simps digit_char_def)

subsection \<open>normalizeResourceDefinition in closed form\<close>

lemma orElse_simps [simp]:
  "orElse (Val x) a = Val x" "orElse Undef a = Undef" "orElse Absent a = a"
  by (simp_all add: orElse_def)

lemma prop_value_simps [simp]:
  "prop_value (Val x) = Some x" "prop_value Undef = None" "prop_value Absent = None"
  by (simp_all add: prop_value_def)

lemma prop_value_map: "prop_value (map_property f p) = map_option f (prop_value p)"
  by (cases p) simp_all

lemma rewritten_map: "rewritten p (map_option f (prop_value p)) = map_property f p"
  by (cases p) (simp_all add: rewritten_def)

lemmas accessors = schema_def url_def params_def method'_def headers_def body_def auto_def
  store_def defaultValue_def extends_def isArray_def requestKey'_def

lemma accessor_Definition:
  "schema (Definition a b c d e f g h i j k l m n p q) = prop_value a"
  "url (Definition a b c d e f g h i j k l m n p q) = prop_value b"
  "params (Definition a b c d e f g h i j k l m n p q) = prop_value c"
  "method' (Definition a b c d e f g h i j k l m n p q) = prop_value d"
  "headers (Definition a b c d e f g h i j k l m n p q) = prop_value e"
  "body (Definition a b c d e f g h i j k l m n p q) = prop_value f"
  "auto (Definition a b c d e f g h i j k l m n p q) = prop_value g"
  "store (Definition a b c d e f g h i j k l m n p q) = prop_value h"
  "defaultValue (Definition a b c d e f g h i j k l m n p q) = prop_value j"
  "extends (Definition a b c d e f g h i j k l m n p q) = prop_value n"
  "isArray (Definition a b c d e f g h i j k l m n p q) = prop_value p"
  "requestKey' (Definition a b c d e f g h i j k l m n p q) = prop_value q"
  by (simp_all add: accessors)

lemma derive_props:
  "schema_prop (derive d sch url1 m) = schema_prop d"
  "url_prop (derive d sch url1 m) = Val url1"
  "params_prop (derive d sch url1 m) = map_property stringified (params_prop d)"
  "method_prop (derive d sch url1 m) = Val (toUpperCase m)"
  "headers_prop (derive d sch url1 m) = map_property stringified (headers_prop d)"
  "body_prop (derive d sch url1 m) = map_property stringified (body_prop d)"
  "auto_prop (derive d sch url1 m) =
     (if toUpperCase m = ''GET'' \<and> auto d = None then Val True else auto_prop d)"
  "store_prop (derive d sch url1 m) =
     (if toUpperCase m = ''GET'' \<and> store d = None then Val True else store_prop d)"
  "clientOnly_prop (derive d sch url1 m) = clientOnly_prop d"
  "defaultValue_prop (derive d sch url1 m) =
     (if defaultValue d = None
      then Val (if (case sch of EntitySchema _ \<Rightarrow> False | IterableSchema _ \<Rightarrow> True)
                then Arr [] else Obj [])
      else defaultValue_prop d)"
  "updateStrategy_prop (derive d sch url1 m) = updateStrategy_prop d"
  "normalize_prop (derive d sch url1 m) = normalize_prop d"
  "actions_prop (derive d sch url1 m) = actions_prop d"
  "extends_prop (derive d sch url1 m) = extends_prop d"
  "isArray_prop (derive d sch url1 m) =
     Val (case sch of EntitySchema _ \<Rightarrow> False | IterableSchema _ \<Rightarrow> True)"
  "requestKey_prop (derive d sch url1 m) =
     Val (stringHash (join ''|'' (map encodeURIComponent
       [toUpperCase m, url1, canonical_opt (headers d), canonical_opt (body d)])))"
  by (simp_all add: derive_def Let_def)

lemma spread_props:
  "schema_prop (spread a b) = orElse (schema_prop b) (schema_prop a)"
  "url_prop (spread a b) = orElse (url_prop b) (url_prop a)"
  "params_prop (spread a b) = orElse (params_prop b) (params_prop a)"
  "method_prop (spread a b) = orElse (method_prop b) (method_prop a)"
  "headers_prop (spread a b) = orElse (headers_prop b) (headers_prop a)"
  "body_prop (spread a b) = orElse (body_prop b) (body_prop a)"
  "auto_prop (spread a b) = orElse (auto_prop b) (auto_prop a)"
  "store_prop (spread a b) = orElse (store_prop b) (store_prop a)"
  "clientOnly_prop (spread a b) = orElse (clientOnly_prop b) (clientOnly_prop a)"
  "defaultValue_prop (spread a b) = orElse (defaultValue_prop b) (defaultValue_prop a)"
  "updateStrategy_prop (spread a b) = orElse (updateStrategy_prop b) (updateStrategy_prop a)"
  "normalize_prop (spread a b) = orElse (normalize_prop b) (normalize_prop a)"
  "actions_prop (spread a b) = orElse (actions_prop b) (actions_prop a)"
  "extends_prop (spread a b) = orElse (extends_prop b) (extends_prop a)"
  "isArray_prop (spread a b) = orElse (isArray_prop b) (isArray_prop a)"
  "requestKey_prop (spread a b) = orElse (requestKey_prop b) (requestKey_prop a)"
  by (simp_all add: spread_def)

lemma normalizeResourceDefinition_eq:
  "normalizeResourceDefinition normalizeUrl raw =
     (let d = merge_definition raw in
      case schema d of
        None \<Rightarrow> Inl InvariantViolation
      | Some sch \<Rightarrow>
          if query_in_url (to_string_opt (url d)) then Inl InvariantViolation
          else (case url d of
                  None \<Rightarrow> Inl TypeError
                | Some u \<Rightarrow>
                    (case normalizeUrl (target u (params d)) of
                       None \<Rightarrow> Inl UrlError
                     | Some url1 \<Rightarrow>
                         (case method' d of
                            None \<Rightarrow> Inl TypeError
                          | Some m \<Rightarrow> Inr (derive d sch url1 m)))))"
proof -
  define d where "d = merge_definition raw"
  show ?thesis
  proof (cases "schema d")
    case None
    then show ?thesis by (simp add: normalizeResourceDefinition_def d_def)
  next
    case sch: (Some sch)
    show ?thesis
    proof (cases "query_in_url (to_string_opt (url d))")
      case True
      with sch show ?thesis by (simp add: normalizeResourceDefinition_def d_def)
    next
      case q: False
      show ?thesis
      proof (cases "url d")
        case None
        with sch q show ?thesis by (simp add: normalizeResourceDefinition_def d_def)
      next
        case u: (Some u)
        show ?thesis
        proof (cases "normalizeUrl (target u (params d))")
          case None
          with sch q u show ?thesis
            by (simp add: normalizeResourceDefinition_def d_def fullUrl_eq bind_err_def)
        next
          case url1: (Some url1)
          show ?thesis
          proof (cases "method' d")
            case None
            with sch q u url1 show ?thesis
              by (simp add: normalizeResourceDefinition_def d_def fullUrl_eq bind_err_def)
          next
            case (Some m)
            from sch q u url1 Some show ?thesis
              apply (simp add: normalizeResourceDefinition_def d_def[symmetric] fullUrl_eq
                  requestKey_eq bind_err_def Let_def hashed_string_def
                  to_string_opt_def split del: if_split)
              apply (rule resource_definition.expand)
              apply (simp add: derive_props accessor_Definition split del: if_split)
              apply (simp add: accessors rewritten_map)
              done
          qed
        qed
      qed
    qed
  qed
qed

lemma normalized_derive:
  assumes "normalizeResourceDefinition normalizeUrl raw = Inr d"
  shows "\<exists>sch u url1 m. schema (merge_definition raw) = Some sch \<and>
           url (merge_definition raw) = Some u \<and> \<not> query_in_url u \<and>
           normalizeUrl (target u (params (merge_definition raw))) = Some url1 \<and>
           method' (merge_definition raw) = Some m \<and>
           d = derive (merge_definition raw) sch url1 m"
  using assms
  by (auto simp: normalizeResourceDefinition_eq Let_def to_string_opt_def
      split: option.splits if_splits)

lemma derive_fields:
  "schema (derive d sch url1 m) = schema d"
  "url (derive d sch url1 m) = Some url1"
  "method' (derive d sch url1 m) = Some (toUpperCase m)"
  "params (derive d sch url1 m) = map_option stringified (params d)"
  "headers (derive d sch url1 m) = map_option stringified (headers d)"
  "body (derive d sch url1 m) = map_option stringified (body d)"
  "extends (derive d sch url1 m) = extends d"
  "isArray (derive d sch url1 m) =
     Some (case sch of EntitySchema _ \<Rightarrow> False | IterableSchema _ \<Rightarrow> True)"
  "requestKey' (derive d sch url1 m) =
     Some (stringHash (join ''|'' (map encodeURIComponent
       [toUpperCase m, url1, canonical_opt (headers d), canonical_opt (body d)])))"
  by (simp_all add: derive_props accessors prop_value_map)

lemma derive_auto_store:
  "auto (derive d sch url1 m) = (if toUpperCase m = ''GET'' \<and> auto d = None then Some True else auto d)"
  "store (derive d sch url1 m) = (if toUpperCase m = ''GET'' \<and> store d = None then Some True else store d)"
  by (simp_all add: derive_props accessors)

lemma derive_defaultValue:
  "defaultValue (derive d sch url1 m) =
     (case defaultValue d of
        None \<Rightarrow> Some (case sch of EntitySchema _ \<Rightarrow> Obj [] | IterableSchema _ \<Rightarrow> Arr [])
      | Some v \<Rightarrow> Some v)"
  by (cases sch) (simp_all add: derive_props accessors split: option.splits)

lemma normalized_keys:
  assumes "normalizeResourceDefinition normalizeUrl raw = Inr d"
  shows "\<exists>key rk. schemaKey d = Inr key \<and> requestKey' d = Some rk"
proof -
  from normalized_derive[OF assms] obtain sch u url1 m
    where sch: "schema (merge_definition raw) = Some sch"
      and d: "d = derive (merge_definition raw) sch url1 m"
    by blast
  have "schema d = Some sch" by (simp add: d derive_fields sch)
  then have "\<exists>key. schemaKey d = Inr key" by (cases sch) (simp_all add: schemaKey_def)
  moreover have "\<exists>rk. requestKey' d = Some rk" by (simp add: d derive_fields)
  ultimately show ?thesis by blast
qed

lemma toUpperCase_GET: "toUpperCase ''GET'' = ''GET''"
  by (simp add: toUpperCase_def upper_char_def)

lemma toUpperCase_POST: "toUpperCase ''POST'' = ''POST''"
  by (simp add: toUpperCase_def upper_char_def)

lemma strip_example: "strip_trailing_slashes ''http://a.com'' = ''http://a.com''"
  by (simp add: strip_trailing_slashes_def)

lemma target_example: "target ''http://a.com'' None = ''http://a.com''"
  by (simp add: target_def strip_example)

lemma target_with_params:
  "target ''http://a.com'' (Some [(''q'', Str ''x'')]) = ''http://a.com/?q=x''"
  by (simp add: target_def strip_example js_eval)

lemma normalize_get:
  "normalizeResourceDefinition Some (user_resource None None) =
     Inr (derive (merge_definition (user_resource None None))
            (EntitySchema ''user'') ''http://a.com'' ''GET'')"
  by (simp add: normalizeResourceDefinition_eq normalize_eval Let_def to_string_opt_def
      target_example)

lemma normalize_post:
  "normalizeResourceDefinition Some (user_resource (Some ''POST'') None) =
     Inr (derive (merge_definition (user_resource (Some ''POST'') None))
            (EntitySchema ''user'') ''http://a.com'' ''POST'')"
  by (simp add: normalizeResourceDefinition_eq normalize_eval Let_def to_string_opt_def
      target_example)

lemma normalize_with_params:
  "normalizeResourceDefinition Some (user_resource None (Some [(''q'', Str ''x'')])) =
     Inr (derive (merge_definition (user_resource None (Some [(''q'', Str ''x'')])))
            (EntitySchema ''user'') ''http://a.com/?q=x'' ''GET'')"
  by (simp add: normalizeResourceDefinition_eq normalize_eval Let_def to_string_opt_def
      target_with_params)

lemma schema_user_resource:
  "schema (merge_definition (user_resource m ps)) = Some (EntitySchema ''user'')"
  by (simp add: normalize_eval)

lemma schemaKey_normalize_get:
  "schemaKey (derive (merge_definition (user_resource None None))
     (EntitySchema ''user'') ''http://a.com'' ''GET'') = Inr ''user''"
  by (simp add: schemaKey_def derive_fields schema_user_resource)

subsection \<open>Normalising a normalised definition\<close>

lemma upper_char_unchanged:
  "\<not> (97 \<le> (of_char x :: nat) \<and> (of_char x :: nat) \<le> 122) \<Longrightarrow> upper_char x = x"
  by (auto simp: upper_char_def Let_def)

lemma upper_char_idem: "upper_char (upper_char c) = upper_char c"
proof (cases "97 \<le> (of_char c :: nat) \<and> (of_char c :: nat) \<le> 122")
  case True
  have "length ''ABCDEFGHIJKLMNOPQRSTUVWXYZ'' = 26" by simp
  with True have "(of_char c :: nat) - 97 < length ''ABCDEFGHIJKLMNOPQRSTUVWXYZ''" by arith
  then have "''ABCDEFGHIJKLMNOPQRSTUVWXYZ'' ! ((of_char c :: nat) - 97)
               \<in> set ''ABCDEFGHIJKLMNOPQRSTUVWXYZ''"
    by (rule nth_mem)
  moreover have "upper_char c = ''ABCDEFGHIJKLMNOPQRSTUVWXYZ'' ! ((of_char c :: nat) - 97)"
    using True by (simp add: upper_char_def Let_def)
  ultimately have "upper_char c \<in> set ''ABCDEFGHIJKLMNOPQRSTUVWXYZ''" by simp
  then have "\<not> (97 \<le> (of_char (upper_char c) :: nat) \<and> (of_char (upper_char c) :: nat) \<le> 122)"
    by auto
  then show ?thesis by (rule upper_char_unchanged)
next
  case False
  then have "upper_char c = c" by (rule upper_char_unchanged)
  then show ?thesis by simp
qed

lemma toUpperCase_idem: "toUpperCase (toUpperCase m) = toUpperCase m"
  by (simp add: toUpperCase_def upper_char_idem)

lemma stringify_step_id: "\<not> typeof_object (obj_get ps k) \<Longrightarrow> stringify_step ps k = ps"
  by (simp add: stringify_step_def)

lemma foldl_stringify_id:
  "(\<And>k. \<not> typeof_object (obj_get ps k)) \<Longrightarrow> foldl stringify_step ps ks = ps"
  by (induction ks) (simp_all add: stringify_step_id)

lemma keys_stringified: "keys (stringified ps) = keys ps"
  by (simp add: stringified_def keys_foldl_stringify)

lemma stringified_idem: "stringified (stringified ps) = stringified ps"
proof -
  have "\<not> typeof_object (obj_get (stringified ps) k)" for k
    by (simp add: stringified_def not_object_stringified)
  then have "foldl stringify_step (stringified ps) (keys (stringified ps)) = stringified ps"
    by (rule foldl_stringify_id)
  then show ?thesis by (simp add: stringified_def[of "stringified ps"])
qed

lemma canonical_params_stringified: "canonical_params (stringified ps) = canonical_params ps"
proof -
  have "obj_get (stringified ps) k = stringify_value (obj_get ps k)" for k
    by (simp add: stringified_def obj_get_stringified)
  then show ?thesis by (simp add: canonical_params_def listed_def keys_stringified)
qed

lemma map_option_stringified_idem:
  "map_option stringified (map_option stringified a) = map_option stringified a"
  by (cases a) (simp_all add: stringified_idem)

lemma map_property_stringified_idem:
  "map_property stringified (map_property stringified p) = map_property stringified p"
  by (cases p) (simp_all add: stringified_idem)

lemma canonical_opt_stringified: "canonical_opt (map_option stringified a) = canonical_opt a"
  by (cases a) (simp_all add: canonical_opt_def canonical_params_stringified)

lemma target_stringified: "target u (map_option stringified ps) = target u ps"
  by (cases ps) (simp_all add: target_def canonical_params_stringified)

lemma merge_definition_inherited: "merge_definition raw = spread (inherited raw) raw"
  by (simp add: merge_definition_def inherited_def)

lemma inherited_merge: "inherited (merge_definition raw) = inherited raw"
proof -
  have "extends (merge_definition raw) =
          (case extends raw of None \<Rightarrow> Some empty_definition | Some e \<Rightarrow> Some e) \<or>
        extends (merge_definition raw) = extends raw"
    by (cases "extends_prop raw")
       (simp_all add: merge_definition_def spread_def extends_def empty_definition_def
          definitionDefaults_def)
  then show ?thesis
    by (auto simp: inherited_def split: option.splits)
qed

lemma extends_derive: "extends (derive d sch u m) = extends d"
  by (rule derive_fields)

lemma inherited_derive: "inherited (derive d sch u m) = inherited d"
  by (simp add: inherited_def extends_derive)

lemma orElse_again1: "orElse (orElse a y) y = orElse a y"
  by (cases a; cases y) simp_all

lemma orElse_again2: "orElse (map_property g (orElse a y)) y = map_property g (orElse a y)"
  by (cases a; cases y) simp_all

lemma orElse_again3:
  "orElse (if c then Val x else orElse b z) z = (if c then Val x else orElse b z)"
  by (cases b; cases z) simp_all

lemmas orElse_again = orElse_again1 orElse_again2 orElse_again3

lemma spread_derive:
  "spread X (derive (spread X raw) sch u m) = derive (spread X raw) sch u m"
  by (rule resource_definition.expand)
     (simp add: spread_props[of X "derive (spread X raw) sch u m"] derive_props
        spread_props[of X raw] orElse_again)

lemma merge_derive:
  "merge_definition (derive (merge_definition raw) sch u m) =
     derive (merge_definition raw) sch u m"
proof -
  let ?X = "inherited raw"
  have "inherited (derive (merge_definition raw) sch u m) = ?X"
    by (simp add: inherited_derive inherited_merge)
  then have "merge_definition (derive (merge_definition raw) sch u m) =
          spread ?X (derive (merge_definition raw) sch u m)"
    by (simp only: merge_definition_inherited[of "derive (merge_definition raw) sch u m"])
  also have "\<dots> = spread ?X (derive (spread ?X raw) sch u m)"
    by (simp only: merge_definition_inherited[of raw])
  also have "\<dots> = derive (spread ?X raw) sch u m"
    by (rule spread_derive)
  finally show ?thesis by (simp only: merge_definition_inherited[of raw])
qed

lemma derive_derive:
  "derive (derive d sch u1 m) sch u2 (toUpperCase m) = derive d sch u2 m"
proof -
  have dv: "defaultValue (derive d sch u1 m) \<noteq> None"
    by (simp add: derive_defaultValue split: option.splits)
  show ?thesis
    by (rule resource_definition.expand)
       (simp add: derive_props[of "derive d sch u1 m"] derive_props[of d] dv
          derive_fields derive_auto_store canonical_opt_stringified toUpperCase_idem
          map_property_stringified_idem)
qed

lemma derive_eq_iff: "derive d sch u2 m = derive d sch u1 m \<longleftrightarrow> u2 = u1"
proof
  assume "derive d sch u2 m = derive d sch u1 m"
  then have "url (derive d sch u2 m) = url (derive d sch u1 m)" by simp
  then show "u2 = u1" by (simp add: derive_fields)
next
  assume "u2 = u1"
  then show "derive d sch u2 m = derive d sch u1 m" by simp
qed

lemma normalize_derived:
  assumes "schema (merge_definition raw) = Some sch"
  shows "normalizeResourceDefinition normalizeUrl (derive (merge_definition raw) sch u1 m) =
     (if query_in_url u1 then Inl InvariantViolation
      else (case normalizeUrl (target u1 (params (merge_definition raw))) of
              None \<Rightarrow> Inl UrlError
            | Some u2 \<Rightarrow> Inr (derive (merge_definition raw) sch u2 m)))"
proof -
  let ?d = "derive (merge_definition raw) sch u1 m"
  have "schema ?d = Some sch" "method' ?d = Some (toUpperCase m)" "url ?d = Some u1"
    "target u1 (params ?d) = target u1 (params (merge_definition raw))"
    by (simp_all add: derive_fields assms target_stringified)
  then show ?thesis
    by (simp add: normalizeResourceDefinition_eq[of _ ?d] merge_derive Let_def to_string_opt_def
        derive_derive split: option.splits)
qed

section \<open>Parameter Canonicalizer\<close>




section \<open>Cache Key Deriver\<close>

text \<open>
  Claim C9.  For two requests with the same method and url whose headers and whose
  bodies differ only in the order of their top-level properties, \<open>requestKey\<close> returns
  the same key and does not throw; and a header or body value that is an object, an
  array or \<^verbatim>\<open>null\<close> is left behind, in the request, as the JSON text of the value as
  it was written.
\<close>

theorem requestKey_top_level_permutation:
  assumes "method' d' = method' d" and "url d' = url d"
    and "permuted (headers d) (headers d')" and "permuted (body d) (body d')"
  shows "\<exists>k h b h' b'. requestKey d = Inr (k, h, b) \<and> requestKey d' = Inr (k, h', b') \<and>
           (\<forall>hs key. headers d = Some hs \<and> typeof_object (obj_get hs key) \<longrightarrow>
              (\<exists>hs1. h = Some hs1 \<and> obj_get hs1 key = Str (JSON_stringify (obj_get hs key)))) \<and>
           (\<forall>bs key. body d = Some bs \<and> typeof_object (obj_get bs key) \<longrightarrow>
              (\<exists>bs1. b = Some bs1 \<and> obj_get bs1 key = Str (JSON_stringify (obj_get bs key))))"
  using hashed_string_permuted[OF assms]
  by (simp add: requestKey_eq obj_get_stringified_object)

theorem requestKey_top_level_permutation_witness:
  "permuted (Some [(''b'', Str ''x''), (''a'', Obj [(''y'', Num 2)])])
            (Some [(''a'', Obj [(''y'', Num 2)]), (''b'', Str ''x'')]) \<and>
   permuted None None \<and>
   typeof_object (obj_get [(''b'', Str ''x''), (''a'', Obj [(''y'', Num 2)])] ''a'') \<and>
   (\<exists>k h b h' b'.
      requestKey (request ''GET'' ''http://a.com'' (Some [(''b'', Str ''x''), (''a'', Obj [(''y'', Num 2)])]) None)
        = Inr (k, h, b) \<and>
      requestKey (request ''GET'' ''http://a.com'' (Some [(''a'', Obj [(''y'', Num 2)]), (''b'', Str ''x'')]) None)
        = Inr (k, h', b') \<and>
      (\<exists>hs1. h = Some hs1 \<and> obj_get hs1 ''a'' = Str (JSON_stringify (Obj [(''y'', Num 2)]))))"
proof -
  let ?h = "[(''b'', Str ''x''), (''a'', Obj [(''y'', Num 2)])]"
  let ?h' = "[(''a'', Obj [(''y'', Num 2)]), (''b'', Str ''x'')]"
  let ?d = "request ''GET'' ''http://a.com'' (Some ?h) None"
  let ?d' = "request ''GET'' ''http://a.com'' (Some ?h') None"
  have m: "method' ?d' = method' ?d" and u: "url ?d' = url ?d" by (simp_all add: request_fields)
  have p: "permuted (headers ?d) (headers ?d')" by (simp add: request_eval)
  have q: "permuted (body ?d) (body ?d')" by (simp add: request_eval)
  have t: "typeof_object (obj_get ?h ''a'')" by (simp add: obj_get_def)
  have hd: "headers ?d = Some ?h" by (simp add: request_fields)
  have og: "obj_get ?h ''a'' = Obj [(''y'', Num 2)]" by (simp add: obj_get_def)
  have pp: "permuted (Some ?h) (Some ?h')" "permuted None None"
    by (simp_all add: request_eval)
  from requestKey_top_level_permutation[OF m u p q]
  have "\<exists>k h b h' b'. requestKey ?d = Inr (k, h, b) \<and> requestKey ?d' = Inr (k, h', b') \<and>
      (\<exists>hs1. h = Some hs1 \<and> obj_get hs1 ''a'' = Str (JSON_stringify (Obj [(''y'', Num 2)])))"
  proof (elim exE conjE)
    fix k h b h' b'
    assume r: "requestKey ?d = Inr (k, h, b)" "requestKey ?d' = Inr (k, h', b')"
      and n: "\<forall>hs key. headers ?d = Some hs \<and> typeof_object (obj_get hs key) \<longrightarrow>
              (\<exists>hs1. h = Some hs1 \<and> obj_get hs1 key = Str (JSON_stringify (obj_get hs key)))"
    from n hd t
    have "\<exists>hs1. h = Some hs1 \<and> obj_get hs1 ''a'' = Str (JSON_stringify (obj_get ?h ''a''))"
      by blast
    with og
    have "\<exists>hs1. h = Some hs1 \<and> obj_get hs1 ''a'' = Str (JSON_stringify (Obj [(''y'', Num 2)]))"
      by simp
    with r show ?thesis by blast
  qed
  with pp t show ?thesis by (intro conjI)
qed

text \<open>
  Claim C5, as amended.  The key is the hash of a string that separates, without
  ambiguity, the method, the url and the canonical strings of headers and body: two
  requests have the same hashed string exactly when these four coincide, and then they
  have the same key.  In particular requests whose headers and bodies differ only in the
  order of their top-level properties have the same key.  Nothing is claimed of requests
  with different hashed strings: the key is a 32-bit hash.
\<close>

theorem requestKey_same_canonical_strings:
  "requestKey_of d = Inr (stringHash (hashed_string d)) \<and>
   (hashed_string d = hashed_string d' \<longleftrightarrow>
      to_string_opt (method' d) = to_string_opt (method' d') \<and>
      to_string_opt (url d) = to_string_opt (url d') \<and>
      canonical_opt (headers d) = canonical_opt (headers d') \<and>
      canonical_opt (body d) = canonical_opt (body d')) \<and>
   (method' d' = method' d \<and> url d' = url d \<and>
    permuted (headers d) (headers d') \<and> permuted (body d) (body d') \<longrightarrow>
      requestKey_of d' = requestKey_of d)"
proof (intro conjI impI)
  show "requestKey_of d = Inr (stringHash (hashed_string d))" by (rule requestKey_of_eq)
  show "hashed_string d = hashed_string d' \<longleftrightarrow>
      to_string_opt (method' d) = to_string_opt (method' d') \<and>
      to_string_opt (url d) = to_string_opt (url d') \<and>
      canonical_opt (headers d) = canonical_opt (headers d') \<and>
      canonical_opt (body d) = canonical_opt (body d')"
    by (rule hashed_string_eq_iff)
  assume "method' d' = method' d \<and> url d' = url d \<and>
    permuted (headers d) (headers d') \<and> permuted (body d) (body d')"
  then have "hashed_string d' = hashed_string d" by (simp add: hashed_string_permuted)
  then show "requestKey_of d' = requestKey_of d" by (simp add: requestKey_of_eq)
qed

theorem requestKey_same_canonical_strings_witness:
  "method' (request ''POST'' ''http://a.com/users'' None (Some [(''id'', Num 7), (''name'', Str ''x'')])) =
   method' (request ''POST'' ''http://a.com/users'' None (Some [(''name'', Str ''x''), (''id'', Num 7)])) \<and>
   permuted (Some [(''name'', Str ''x''), (''id'', Num 7)]) (Some [(''id'', Num 7), (''name'', Str ''x'')]) \<and>
   requestKey_of (request ''POST'' ''http://a.com/users'' None (Some [(''id'', Num 7), (''name'', Str ''x'')])) =
   requestKey_of (request ''POST'' ''http://a.com/users'' None (Some [(''name'', Str ''x''), (''id'', Num 7)]))"
proof -
  let ?d = "request ''POST'' ''http://a.com/users'' None (Some [(''name'', Str ''x''), (''id'', Num 7)])"
  let ?d' = "request ''POST'' ''http://a.com/users'' None (Some [(''id'', Num 7), (''name'', Str ''x'')])"
  have h: "method' ?d' = method' ?d \<and> url ?d' = url ?d \<and>
    permuted (headers ?d) (headers ?d') \<and> permuted (body ?d) (body ?d')"
    by (simp add: request_eval)
  have p: "permuted (Some [(''name'', Str ''x''), (''id'', Num 7)])
                    (Some [(''id'', Num 7), (''name'', Str ''x'')])"
    by (simp add: request_eval)
  from requestKey_same_canonical_strings[of ?d ?d'] h have "requestKey_of ?d' = requestKey_of ?d"
    by blast
  with h p show ?thesis by simp
qed

text \<open>
  Claim C5 as stated fails in both directions.  Two requests that differ in one header
  value, the number \<open>1\<close> against the string \<open>''1''\<close>, get the same key; and two requests
  whose headers are equal up to the key order of a nested object get different keys.
\<close>

theorem requestKey_counterexample:
  "requestKey_of (request ''GET'' ''http://a.com'' (Some [(''a'', Num 1)]) None) =
   requestKey_of (request ''GET'' ''http://a.com'' (Some [(''a'', Str ''1'')]) None) \<and>
   key_order_equal (Obj [(''a'', Obj [(''x'', Num 1), (''y'', Num 2)])])
                   (Obj [(''a'', Obj [(''y'', Num 2), (''x'', Num 1)])]) \<and>
   requestKey_of (request ''GET'' ''http://a.com''
       (Some [(''a'', Obj [(''x'', Num 1), (''y'', Num 2)])]) None) \<noteq>
   requestKey_of (request ''GET'' ''http://a.com''
       (Some [(''a'', Obj [(''y'', Num 2), (''x'', Num 1)])]) None)"
proof (intro conjI)
  show "requestKey_of (request ''GET'' ''http://a.com'' (Some [(''a'', Num 1)]) None) =
   requestKey_of (request ''GET'' ''http://a.com'' (Some [(''a'', Str ''1'')]) None)"
    by (simp add: requestKey_of_eq hashed_eval js_eval)
  have inner: "key_order_equal (Obj [(''x'', Num 1), (''y'', Num 2)])
                               (Obj [(''y'', Num 2), (''x'', Num 1)])"
    by (rule key_order_equal.objects) (simp_all add: keys_def obj_get_def key_order_equal.same)
  show "key_order_equal (Obj [(''a'', Obj [(''x'', Num 1), (''y'', Num 2)])])
                        (Obj [(''a'', Obj [(''y'', Num 2), (''x'', Num 1)])])"
    by (rule key_order_equal.objects) (simp_all add: keys_def obj_get_def inner)
  have a: "hashed_string (request ''GET'' ''http://a.com''
             (Some [(''a'', Obj [(''x'', Num 1), (''y'', Num 2)])]) None) =
           ''GET|http%3A%2F%2Fa.com|a%3D%257B%2522x%2522%253A1%252C%2522y%2522%253A2%257D|''"
    by (simp add: hashed_eval js_eval)
  have b: "hashed_string (request ''GET'' ''http://a.com''
             (Some [(''a'', Obj [(''y'', Num 2), (''x'', Num 1)])]) None) =
           ''GET|http%3A%2F%2Fa.com|a%3D%257B%2522y%2522%253A2%252C%2522x%2522%253A1%257D|''"
    by (simp add: hashed_eval js_eval)
  show "requestKey_of (request ''GET'' ''http://a.com''
       (Some [(''a'', Obj [(''x'', Num 1), (''y'', Num 2)])]) None) \<noteq>
   requestKey_of (request ''GET'' ''http://a.com''
       (Some [(''a'', Obj [(''y'', Num 2), (''x'', Num 1)])]) None)"
    unfolding requestKey_of_eq a b by (simp add: stringHash_def)
qed

section \<open>Resolver\<close>

text \<open>
  Claim C3, as amended.  For a state whose ledger entry under the definition's request
  key records the ids \<open>[1, 2]\<close> under \<open>''user''\<close> and is not invalidated, and whose entity
  store holds \<open>A\<close> under \<open>1\<close> and \<open>B\<close> under \<open>2\<close> in the bucket \<open>''user''\<close>, \<open>findInState\<close>
  returns the entry's \<open>meta\<close> with the value \<open>[A, B]\<close> when the definition's \<open>isArray\<close> is
  true, and with the value \<open>A\<close> otherwise.
\<close>

theorem findInState_joins_entities:
  assumes "schemaKey d = Inr ''user''" and "requestKey' d = Some rk"
    and "ledger_of st rk = Some e" and "data e ''user'' = Some (Arr [Num 1, Num 2])"
    and "store_of st ''user'' = Some bucket"
    and "obj_get bucket ''1'' = A" and "obj_get bucket ''2'' = B"
    and "\<not> didInvalidate e"
  shows "findInState st d =
     Inr (Obj [(''meta'', Obj (meta e)),
               (''value'', if isArray d = Some True then Arr [A, B] else A)])"
proof -
  have "mapped st ''user'' [Num 1, Num 2] = [A, B]"
    using assms(5-7) by (simp add: mapped_def show_int_1 show_int_2)
  with findInState_hit[OF assms(1-3) recorded_array[OF assms(4)] assms(8)] show ?thesis by simp
qed

theorem findInState_joins_entities_witness:
  "findInState (users_state 7 False [Num 1, Num 2])
     (users_definition (IterableSchema ''user'') True (Arr [])) =
     Inr (Obj [(''meta'', Obj [(''isFetching'', Bool False), (''didInvalidate'', Bool False)]),
               (''value'', Arr [Obj [(''name'', Str ''A'')], Obj [(''name'', Str ''B'')]])]) \<and>
   findInState (users_state 7 False [Num 1, Num 2])
     (users_definition (EntitySchema ''user'') False (Obj [])) =
     Inr (Obj [(''meta'', Obj [(''isFetching'', Bool False), (''didInvalidate'', Bool False)]),
               (''value'', Obj [(''name'', Str ''A'')])])"
proof -
  let ?st = "users_state 7 False [Num 1, Num 2]"
  let ?e = "\<lparr>meta = [(''isFetching'', Bool False), (''didInvalidate'', Bool False)],
             data = [''user'' \<mapsto> Arr [Num 1, Num 2]]\<rparr>"
  let ?bucket = "[(''1'', Obj [(''name'', Str ''A'')]), (''2'', Obj [(''name'', Str ''B'')])]"
  have l: "ledger_of ?st 7 = Some ?e" by (simp add: resolver_eval)
  have dt: "data ?e ''user'' = Some (Arr [Num 1, Num 2])" by simp
  have s: "store_of ?st ''user'' = Some ?bucket" by (simp add: resolver_eval)
  have a: "obj_get ?bucket ''1'' = Obj [(''name'', Str ''A'')]" by (simp add: obj_get_def)
  have b: "obj_get ?bucket ''2'' = Obj [(''name'', Str ''B'')]" by (simp add: obj_get_def)
  have v: "\<not> didInvalidate ?e" by (simp add: resolver_eval)
  have k1: "schemaKey (users_definition (IterableSchema ''user'') True (Arr [])) = Inr ''user''"
    and r1: "requestKey' (users_definition (IterableSchema ''user'') True (Arr [])) = Some 7"
    and k2: "schemaKey (users_definition (EntitySchema ''user'') False (Obj [])) = Inr ''user''"
    and r2: "requestKey' (users_definition (EntitySchema ''user'') False (Obj [])) = Some 7"
    by (simp_all add: resolver_eval)
  have i1: "isArray (users_definition (IterableSchema ''user'') True (Arr [])) = Some True"
    and i2: "isArray (users_definition (EntitySchema ''user'') False (Obj [])) \<noteq> Some True"
    by (simp_all add: resolver_eval)
  from findInState_joins_entities[OF k1 r1 l dt s a b v]
       findInState_joins_entities[OF k2 r2 l dt s a b v]
  show ?thesis by (simp add: i1 i2)
qed

text \<open>
  Claim C3 as stated says nothing of \<^verbatim>\<open>meta.didInvalidate\<close>: on the same ledger entry
  and entity store, with the entry invalidated, \<open>findInState\<close> returns \<^verbatim>\<open>false\<close>.
\<close>

theorem findInState_invalidated_counterexample:
  "findInState (users_state 7 True [Num 1, Num 2])
     (users_definition (IterableSchema ''user'') True (Arr [])) = Inr (Bool False)"
  by (simp add: findInState_def resolver_eval bind_err_def)

text \<open>
  Claim C4, as amended.  A normalised definition has a schema key and a request key.
  When the schema key is not the name of a member of \<^verbatim>\<open>Object.prototype\<close>,
  \<open>findInState\<close> returns \<^verbatim>\<open>false\<close> exactly when the ledger has no entry under the
  request key, or what the entry records under the schema key is falsy (nothing,
  \<^verbatim>\<open>undefined\<close>, \<^verbatim>\<open>null\<close>, \<^verbatim>\<open>false\<close>, \<open>0\<close> or the empty string), or the entry's
  \<^verbatim>\<open>meta.didInvalidate\<close> is truthy.  In every other case: when the recorded value is an
  array, or the entity store has no bucket under the schema key, it returns an object that
  carries the entry's \<open>meta\<close> and a value; when the recorded value is not an array and the
  store has a bucket under the schema key, it throws a \<open>TypeError\<close>.
\<close>

theorem findInState_miss_iff:
  assumes "normalizeResourceDefinition normalizeUrl raw = Inr d"
  shows "\<exists>key rk. schemaKey d = Inr key \<and> requestKey' d = Some rk \<and>
           (key \<notin> set inherited_names \<longrightarrow>
              ((findInState st d = Inr (Bool False)) =
                 (ledger_of st rk = None \<or>
                  (\<exists>e. ledger_of st rk = Some e \<and>
                       (\<not> truthy (recorded e key) \<or> didInvalidate e)))) \<and>
              (\<forall>e. ledger_of st rk = Some e \<and> truthy (recorded e key) \<and> \<not> didInvalidate e \<longrightarrow>
                 (if is_array (recorded e key) \<or> store_of st key = None
                  then \<exists>v. findInState st d =
                              Inr (Obj [(''meta'', Obj (meta e)), (''value'', v)])
                  else findInState st d = Inl TypeError)))"
proof -
  from normalized_keys[OF assms] obtain key rk
    where k: "schemaKey d = Inr key" and r: "requestKey' d = Some rk"
    by blast
  from findInState_miss_iff_general[OF k r, of st] findInState_outcome[OF k r, of st] k r
  show ?thesis by blast
qed

theorem findInState_miss_iff_witness:
  "\<exists>d rk. normalizeResourceDefinition Some (user_resource None None) = Inr d \<and>
     schemaKey d = Inr ''user'' \<and> requestKey' d = Some rk \<and>
     ''user'' \<notin> set inherited_names \<and>
     findInState (users_state rk True [Num 1]) d = Inr (Bool False) \<and>
     findInState (users_state rk False [Num 1]) d \<noteq> Inr (Bool False) \<and>
     (\<exists>e v. ledger_of (users_state rk False [Num 1]) rk = Some e \<and>
        findInState (users_state rk False [Num 1]) d =
          Inr (Obj [(''meta'', Obj (meta e)), (''value'', v)])) \<and>
     (\<exists>e. ledger_of (ledger_state rk False (Str ''u1'')) rk = Some e \<and>
        truthy (recorded e ''user'') \<and> \<not> is_array (recorded e ''user'') \<and>
        \<not> didInvalidate e) \<and>
     store_of (ledger_state rk False (Str ''u1'')) ''user'' \<noteq> None \<and>
     findInState (ledger_state rk False (Str ''u1'')) d = Inl TypeError"
proof -
  let ?d = "derive (merge_definition (user_resource None None))
            (EntitySchema ''user'') ''http://a.com'' ''GET''"
  let ?e = "\<lambda>invalid. \<lparr>meta = [(''isFetching'', Bool False), (''didInvalidate'', Bool invalid)],
             data = [''user'' \<mapsto> Arr [Num 1]]\<rparr>"
  let ?s = "\<lparr>meta = [(''isFetching'', Bool False), (''didInvalidate'', Bool False)],
             data = [''user'' \<mapsto> Str ''u1'']\<rparr>"
  have sk: "schemaKey ?d = Inr ''user''" by (rule schemaKey_normalize_get)
  obtain rk0 where rk0: "requestKey' ?d = Some rk0" by (simp add: derive_fields)
  have o: "''user'' \<notin> set inherited_names" by (simp add: inherited_names_def)
  have l: "ledger_of (users_state rk0 invalid [Num 1]) rk0 = Some (?e invalid)" for invalid
    by (simp add: ledger_state_def users_state_def ledger_of_def)
  have t: "truthy (recorded (?e invalid) ''user'')" "is_array (recorded (?e invalid) ''user'')"
    for invalid by (simp_all add: recorded_def)
  have i: "didInvalidate (?e True)" "\<not> didInvalidate (?e False)"
    by (simp_all add: didInvalidate_def obj_get_def)
  have st: "\<exists>key rk. schemaKey ?d = Inr key \<and> requestKey' ?d = Some rk \<and>
           (key \<notin> set inherited_names \<longrightarrow>
              ((findInState st ?d = Inr (Bool False)) =
                 (ledger_of st rk = None \<or>
                  (\<exists>e. ledger_of st rk = Some e \<and>
                       (\<not> truthy (recorded e key) \<or> didInvalidate e)))) \<and>
              (\<forall>e. ledger_of st rk = Some e \<and> truthy (recorded e key) \<and> \<not> didInvalidate e \<longrightarrow>
                 (if is_array (recorded e key) \<or> store_of st key = None
                  then \<exists>v. findInState st ?d =
                              Inr (Obj [(''meta'', Obj (meta e)), (''value'', v)])
                  else findInState st ?d = Inl TypeError)))" for st
    by (rule findInState_miss_iff[OF normalize_get])
  from st[of "users_state rk0 True [Num 1]"] sk rk0 o l[of True] i(1)
  have miss: "findInState (users_state rk0 True [Num 1]) ?d = Inr (Bool False)"
    by auto
  from st[of "users_state rk0 False [Num 1]"] sk rk0 o l[of False] t[of False] i(2)
  have hit: "findInState (users_state rk0 False [Num 1]) ?d \<noteq> Inr (Bool False) \<and>
     (\<exists>e v. ledger_of (users_state rk0 False [Num 1]) rk0 = Some e \<and>
        findInState (users_state rk0 False [Num 1]) ?d =
          Inr (Obj [(''meta'', Obj (meta e)), (''value'', v)]))"
    by auto
  have ls: "ledger_of (ledger_state rk0 False (Str ''u1'')) rk0 = Some ?s"
    by (simp add: ledger_state_def ledger_of_def)
  have ts: "truthy (recorded ?s ''user'')" "\<not> is_array (recorded ?s ''user'')"
    "\<not> didInvalidate ?s"
    by (simp_all add: recorded_def didInvalidate_def obj_get_def)
  have bs: "store_of (ledger_state rk0 False (Str ''u1'')) ''user'' \<noteq> None"
    by (simp add: ledger_state_def store_of_def)
  from st[of "ledger_state rk0 False (Str ''u1'')"] sk rk0 o ls ts bs
  have throws: "findInState (ledger_state rk0 False (Str ''u1'')) ?d = Inl TypeError"
    by auto
  from ls ts
  have es: "\<exists>e. ledger_of (ledger_state rk0 False (Str ''u1'')) rk0 = Some e \<and>
        truthy (recorded e ''user'') \<and> \<not> is_array (recorded e ''user'') \<and>
        \<not> didInvalidate e"
    by (intro exI[of _ ?s] conjI)
  from hit have h1: "findInState (users_state rk0 False [Num 1]) ?d \<noteq> Inr (Bool False)"
    and h2: "\<exists>e v. ledger_of (users_state rk0 False [Num 1]) rk0 = Some e \<and>
        findInState (users_state rk0 False [Num 1]) ?d =
          Inr (Obj [(''meta'', Obj (meta e)), (''value'', v)])"
    by simp_all
  from normalize_get sk rk0 o miss h1 h2 es bs throws show ?thesis
    by (intro exI[of _ ?d] exI[of _ rk0] conjI)
qed

text \<open>
  Claim C4 as stated fails on an entry that records a single id, which the data model
  allows.  With the id \<open>0\<close> recorded, the entry exists, has something under the schema
  key and is not invalidated, and \<open>findInState\<close> returns \<^verbatim>\<open>false\<close>; with the id \<open>7\<close>
  recorded it returns nothing at all: the call of \<^verbatim>\<open>map\<close> throws.
\<close>

theorem findInState_single_id_counterexample:
  "\<exists>d rk. normalizeResourceDefinition Some (user_resource None None) = Inr d \<and>
     schemaKey d = Inr ''user'' \<and> requestKey' d = Some rk \<and>
     (\<exists>e. ledger_of (ledger_state rk False (Num 0)) rk = Some e \<and>
          data e ''user'' = Some (Num 0) \<and> \<not> didInvalidate e) \<and>
     findInState (ledger_state rk False (Num 0)) d = Inr (Bool False) \<and>
     (\<exists>e. ledger_of (ledger_state rk False (Num 7)) rk = Some e \<and>
          data e ''user'' = Some (Num 7) \<and> \<not> didInvalidate e) \<and>
     findInState (ledger_state rk False (Num 7)) d = Inl TypeError"
proof -
  let ?d = "derive (merge_definition (user_resource None None))
            (EntitySchema ''user'') ''http://a.com'' ''GET''"
  let ?e = "\<lambda>v. \<lparr>meta = [(''isFetching'', Bool False), (''didInvalidate'', Bool False)],
             data = [''user'' \<mapsto> v]\<rparr>"
  have sk: "schemaKey ?d = Inr ''user''" by (rule schemaKey_normalize_get)
  obtain rk0 where rk0: "requestKey' ?d = Some rk0" by (simp add: derive_fields)
  have l: "ledger_of (ledger_state rk0 False v) rk0 = Some (?e v)" for v
    by (simp add: ledger_state_def ledger_of_def)
  have s: "store_of (ledger_state rk0 False v) ''user'' =
             Some [(''1'', Obj [(''name'', Str ''A'')]), (''2'', Obj [(''name'', Str ''B'')])]"
    for v by (simp add: ledger_state_def store_of_def)
  have i: "\<not> didInvalidate (?e v)" for v by (simp add: didInvalidate_def obj_get_def)
  have z: "\<not> truthy (recorded (?e (Num 0)) ''user'')" by (simp add: recorded_def)
  have t: "truthy (recorded (?e (Num 7)) ''user'')" "\<not> is_array (recorded (?e (Num 7)) ''user'')"
    by (simp_all add: recorded_def)
  have miss: "findInState (ledger_state rk0 False (Num 0)) ?d = Inr (Bool False)"
    by (rule findInState_miss_falsy[OF sk rk0 l z])
  have throws: "findInState (ledger_state rk0 False (Num 7)) ?d = Inl TypeError"
    by (rule findInState_throws[OF sk rk0 l t i s])
  have e0: "\<exists>e. ledger_of (ledger_state rk0 False (Num 0)) rk0 = Some e \<and>
          data e ''user'' = Some (Num 0) \<and> \<not> didInvalidate e"
    using l[of "Num 0"] i[of "Num 0"] by simp
  have e7: "\<exists>e. ledger_of (ledger_state rk0 False (Num 7)) rk0 = Some e \<and>
          data e ''user'' = Some (Num 7) \<and> \<not> didInvalidate e"
    using l[of "Num 7"] i[of "Num 7"] by simp
  from normalize_get sk rk0 e0 miss e7 throws show ?thesis
    by (intro exI[of _ ?d] exI[of _ rk0] conjI)
qed



text \<open>
  Claim C6 does not hold of the code.  On a hit whose recorded id list is empty, the
  value is the empty array when \<open>isArray\<close> is true and \<^verbatim>\<open>undefined\<close> otherwise, whatever
  the definition's \<open>defaultValue\<close>: the list \<open>findInState\<close> builds is an array, an array is
  truthy, and the branch that substitutes \<open>defaultValue\<close> is never taken.
\<close>

theorem findInState_empty_ids:
  assumes "schemaKey d = Inr key" and "requestKey' d = Some rk"
    and "ledger_of st rk = Some e" and "data e key = Some (Arr [])" and "\<not> didInvalidate e"
  shows "findInState st d =
     Inr (Obj [(''meta'', Obj (meta e)),
               (''value'', if isArray d = Some True then Arr [] else Undefined)])"
proof -
  have "mapped st key [] = []" by (simp add: mapped_def split: option.splits)
  with findInState_hit[OF assms(1-3) recorded_array[OF assms(4)] assms(5)] show ?thesis by simp
qed

theorem findInState_empty_ids_witness:
  "defaultValue (users_definition (EntitySchema ''user'') False (Obj [])) = Some (Obj []) \<and>
   findInState (users_state 7 False []) (users_definition (EntitySchema ''user'') False (Obj [])) =
     Inr (Obj [(''meta'', Obj [(''isFetching'', Bool False), (''didInvalidate'', Bool False)]),
               (''value'', Undefined)]) \<and>
   defaultValue (users_definition (IterableSchema ''user'') True (Arr [Num 0])) =
     Some (Arr [Num 0]) \<and>
   findInState (users_state 7 False []) (users_definition (IterableSchema ''user'') True (Arr [Num 0])) =
     Inr (Obj [(''meta'', Obj [(''isFetching'', Bool False), (''didInvalidate'', Bool False)]),
               (''value'', Arr [])])"
proof -
  let ?st = "users_state 7 False []"
  let ?e = "\<lparr>meta = [(''isFetching'', Bool False), (''didInvalidate'', Bool False)],
             data = [''user'' \<mapsto> Arr []]\<rparr>"
  let ?d1 = "users_definition (EntitySchema ''user'') False (Obj [])"
  let ?d2 = "users_definition (IterableSchema ''user'') True (Arr [Num 0])"
  have l: "ledger_of ?st 7 = Some ?e" by (simp add: resolver_eval)
  have dt: "data ?e ''user'' = Some (Arr [])" by simp
  have v: "\<not> didInvalidate ?e" by (simp add: resolver_eval)
  have k1: "schemaKey ?d1 = Inr ''user''" and r1: "requestKey' ?d1 = Some 7"
    and k2: "schemaKey ?d2 = Inr ''user''" and r2: "requestKey' ?d2 = Some 7"
    by (simp_all add: resolver_eval)
  have i: "isArray ?d1 \<noteq> Some True" "isArray ?d2 = Some True"
    "defaultValue ?d1 = Some (Obj [])" "defaultValue ?d2 = Some (Arr [Num 0])"
    by (simp_all add: resolver_eval)
  from findInState_empty_ids[OF k1 r1 l dt v] findInState_empty_ids[OF k2 r2 l dt v]
  show ?thesis by (simp add: i)
qed

section \<open>Resource Definition Normalizer\<close>




text \<open>
  Claim C8, as amended.  The normalised method is the merged method in upper case.  When
  it is \<open>GET\<close>, \<open>auto\<close> and \<open>store\<close> are set to true where the merged definition does not
  set them; when it is not \<open>GET\<close>, they are left unset where the merged definition does
  not set them (\<^verbatim>\<open>undefined\<close>, which is falsy, not the boolean \<^verbatim>\<open>false\<close>); a value
  the merged definition sets is kept.
\<close>

theorem normalize_auto_store:
  assumes "normalizeResourceDefinition normalizeUrl raw = Inr d"
  shows "method' d = map_option toUpperCase (method' (merge_definition raw)) \<and>
         (method' d = Some ''GET'' \<and> auto (merge_definition raw) = None \<longrightarrow> auto d = Some True) \<and>
         (method' d = Some ''GET'' \<and> store (merge_definition raw) = None \<longrightarrow> store d = Some True) \<and>
         (method' d \<noteq> Some ''GET'' \<and> auto (merge_definition raw) = None \<longrightarrow> auto d = None) \<and>
         (method' d \<noteq> Some ''GET'' \<and> store (merge_definition raw) = None \<longrightarrow> store d = None) \<and>
         (auto (merge_definition raw) \<noteq> None \<longrightarrow> auto d = auto (merge_definition raw)) \<and>
         (store (merge_definition raw) \<noteq> None \<longrightarrow> store d = store (merge_definition raw))"
proof -
  from normalized_derive[OF assms] obtain sch u url1 m
    where m: "method' (merge_definition raw) = Some m"
      and d: "d = derive (merge_definition raw) sch url1 m"
    by blast
  show ?thesis unfolding d by (simp add: derive_fields derive_auto_store m)
qed

theorem normalize_auto_store_witness:
  "(\<exists>d. normalizeResourceDefinition Some (user_resource None None) = Inr d \<and>
        method' d = Some ''GET'' \<and> auto (merge_definition (user_resource None None)) = None \<and>
        store (merge_definition (user_resource None None)) = None \<and>
        auto d = Some True \<and> store d = Some True) \<and>
   (\<exists>d. normalizeResourceDefinition Some (user_resource (Some ''POST'') None) = Inr d \<and>
        method' d \<noteq> Some ''GET'' \<and>
        auto (merge_definition (user_resource (Some ''POST'') None)) = None \<and>
        store (merge_definition (user_resource (Some ''POST'') None)) = None \<and>
        auto d = None \<and> store d = None)"
proof -
  let ?g = "derive (merge_definition (user_resource None None))
            (EntitySchema ''user'') ''http://a.com'' ''GET''"
  let ?p = "derive (merge_definition (user_resource (Some ''POST'') None))
            (EntitySchema ''user'') ''http://a.com'' ''POST''"
  have mg: "method' ?g = Some ''GET''" by (simp add: derive_fields toUpperCase_GET)
  have mp: "method' ?p \<noteq> Some ''GET''" by (simp add: derive_fields toUpperCase_POST)
  have ag: "auto (merge_definition (user_resource None None)) = None"
    "store (merge_definition (user_resource None None)) = None"
    by (simp_all add: normalize_eval)
  have ap: "auto (merge_definition (user_resource (Some ''POST'') None)) = None"
    "store (merge_definition (user_resource (Some ''POST'') None)) = None"
    by (simp_all add: normalize_eval)
  from normalize_auto_store[OF normalize_get] mg ag
  have "auto ?g = Some True \<and> store ?g = Some True" by blast
  moreover from normalize_auto_store[OF normalize_post] mp ap
  have "auto ?p = None \<and> store ?p = None" by blast
  ultimately show ?thesis using normalize_get normalize_post mg mp ag ap by blast
qed

text \<open>
  Claim C8 as stated says that \<open>auto\<close> and \<open>store\<close> default to \<^verbatim>\<open>false\<close> for a method
  other than \<open>GET\<close>: for a \<open>POST\<close> definition that sets neither, both are
  \<^verbatim>\<open>undefined\<close> after normalisation.
\<close>

theorem normalize_non_get_counterexample:
  "\<exists>d. normalizeResourceDefinition Some (user_resource (Some ''POST'') None) = Inr d \<and>
       method' d = Some ''POST'' \<and> auto d \<noteq> Some False \<and> store d \<noteq> Some False"
proof -
  let ?p = "derive (merge_definition (user_resource (Some ''POST'') None))
            (EntitySchema ''user'') ''http://a.com'' ''POST''"
  have "auto (merge_definition (user_resource (Some ''POST'') None)) = None"
    "store (merge_definition (user_resource (Some ''POST'') None)) = None"
    by (simp_all add: normalize_eval)
  then have "method' ?p = Some ''POST'' \<and> auto ?p \<noteq> Some False \<and> store ?p \<noteq> Some False"
    by (simp add: derive_fields derive_auto_store toUpperCase_POST)
  with normalize_post show ?thesis by blast
qed

text \<open>
  Claim C2, as amended.  Let \<open>d\<close> be the normalisation of a raw definition and \<open>u\<close> its
  url.  If \<open>u\<close> has a question mark followed by a character other than \<^verbatim>\<open>#\<close>,
  normalising \<open>d\<close> fails with an invariant violation.  Otherwise normalising \<open>d\<close> calls
  \<open>fullUrl\<close> on \<open>u\<close> and the parameters of \<open>d\<close>: when \<^verbatim>\<open>normalize-url\<close> throws there, so
  does the normalisation; when \<open>fullUrl\<close> returns a url, which it does with the parameters
  unchanged, the normalisation returns a definition with that url, and the definition is
  \<open>d\<close> exactly when the url is \<open>u\<close>.  So normalising \<open>d\<close> gives \<open>d\<close> again exactly when
  \<open>u\<close> passes the check and \<open>fullUrl\<close> maps \<open>u\<close> and the parameters of \<open>d\<close> to themselves.
\<close>

theorem renormalize:
  assumes "normalizeResourceDefinition normalizeUrl raw = Inr d"
  shows "\<exists>u. url d = Some u \<and>
           (query_in_url u \<longrightarrow>
              normalizeResourceDefinition normalizeUrl d = Inl InvariantViolation) \<and>
           (\<not> query_in_url u \<longrightarrow>
              (\<forall>e. fullUrl normalizeUrl u (params d) = Inl e \<longrightarrow>
                 normalizeResourceDefinition normalizeUrl d = Inl e) \<and>
              (\<forall>u'. fullUrl normalizeUrl u (params d) = Inr (u', params d) \<longrightarrow>
                 (\<exists>d'. normalizeResourceDefinition normalizeUrl d = Inr d' \<and>
                       url d' = Some u' \<and> (d' = d \<longleftrightarrow> u' = u)))) \<and>
           (fullUrl normalizeUrl u (params d) = Inl UrlError \<or>
            (\<exists>u'. fullUrl normalizeUrl u (params d) = Inr (u', params d))) \<and>
           (normalizeResourceDefinition normalizeUrl d = Inr d \<longleftrightarrow>
              \<not> query_in_url u \<and> fullUrl normalizeUrl u (params d) = Inr (u, params d)) \<and>
           (params d = None \<longrightarrow>
              fullUrl normalizeUrl u (params d) =
                (case normalizeUrl (strip_trailing_slashes u) of
                   None \<Rightarrow> Inl UrlError
                 | Some u' \<Rightarrow> Inr (u', None)))"
proof -
  from normalized_derive[OF assms] obtain sch u0 u1 m
    where sch: "schema (merge_definition raw) = Some sch"
      and d: "d = derive (merge_definition raw) sch u1 m"
    by blast
  let ?dm = "merge_definition raw"
  have url: "url d = Some u1" by (simp add: d derive_fields)
  have par: "params d = map_option stringified (params ?dm)" by (simp add: d derive_fields)
  have full: "fullUrl normalizeUrl u1 (params d) =
     (case normalizeUrl (target u1 (params ?dm)) of
        None \<Rightarrow> Inl UrlError
      | Some u2 \<Rightarrow> Inr (u2, params d))"
    by (cases "normalizeUrl (target u1 (params ?dm))")
       (simp_all add: fullUrl_eq par target_stringified map_option_stringified_idem)
  have n: "normalizeResourceDefinition normalizeUrl d =
     (if query_in_url u1 then Inl InvariantViolation
      else (case normalizeUrl (target u1 (params ?dm)) of
              None \<Rightarrow> Inl UrlError
            | Some u2 \<Rightarrow> Inr (derive ?dm sch u2 m)))"
    unfolding d by (rule normalize_derived[OF sch])
  have none: "params d = None \<longrightarrow>
      fullUrl normalizeUrl u1 (params d) =
        (case normalizeUrl (strip_trailing_slashes u1) of
           None \<Rightarrow> Inl UrlError
         | Some u' \<Rightarrow> Inr (u', None))"
    by (simp add: fullUrl_eq target_def split: option.splits)
  have body: "(query_in_url u1 \<longrightarrow>
              normalizeResourceDefinition normalizeUrl d = Inl InvariantViolation) \<and>
           (\<not> query_in_url u1 \<longrightarrow>
              (\<forall>e. fullUrl normalizeUrl u1 (params d) = Inl e \<longrightarrow>
                 normalizeResourceDefinition normalizeUrl d = Inl e) \<and>
              (\<forall>u'. fullUrl normalizeUrl u1 (params d) = Inr (u', params d) \<longrightarrow>
                 (\<exists>d'. normalizeResourceDefinition normalizeUrl d = Inr d' \<and>
                       url d' = Some u' \<and> (d' = d \<longleftrightarrow> u' = u1)))) \<and>
           (fullUrl normalizeUrl u1 (params d) = Inl UrlError \<or>
            (\<exists>u'. fullUrl normalizeUrl u1 (params d) = Inr (u', params d))) \<and>
           (normalizeResourceDefinition normalizeUrl d = Inr d \<longleftrightarrow>
              \<not> query_in_url u1 \<and> fullUrl normalizeUrl u1 (params d) = Inr (u1, params d))"
  proof (cases "normalizeUrl (target u1 (params ?dm))")
    case None
    with full n show ?thesis by simp
  next
    case (Some u2)
    have "derive ?dm sch u2 m = d \<longleftrightarrow> u2 = u1"
      unfolding d by (rule derive_eq_iff)
    moreover have "url (derive ?dm sch u2 m) = Some u2" by (simp add: derive_fields)
    ultimately show ?thesis using Some full n by simp
  qed
  with url none show ?thesis by (intro exI[of _ u1]) simp
qed

theorem renormalize_witness:
  "\<exists>d. normalizeResourceDefinition Some (user_resource None None) = Inr d \<and>
       url d = Some ''http://a.com'' \<and> params d = None \<and>
       \<not> query_in_url ''http://a.com'' \<and>
       fullUrl Some ''http://a.com'' (params d) = Inr (''http://a.com'', params d) \<and>
       normalizeResourceDefinition Some d = Inr d"
proof -
  let ?g = "derive (merge_definition (user_resource None None))
            (EntitySchema ''user'') ''http://a.com'' ''GET''"
  have ug: "url ?g = Some ''http://a.com''" by (simp add: derive_fields)
  have "params (merge_definition (user_resource None None)) = None"
    by (simp add: normalize_eval)
  then have pg: "params ?g = None" by (simp add: derive_fields)
  have q: "\<not> query_in_url ''http://a.com''" by simp
  have f: "fullUrl Some ''http://a.com'' (params ?g) = Inr (''http://a.com'', params ?g)"
    by (simp add: fullUrl_eq target_example pg)
  from renormalize[OF normalize_get] obtain u where u: "url ?g = Some u"
    and r: "normalizeResourceDefinition Some ?g = Inr ?g \<longleftrightarrow>
              \<not> query_in_url u \<and> fullUrl Some u (params ?g) = Inr (u, params ?g)"
    by blast
  from u have "u = ''http://a.com''" by (simp add: ug)
  with r q f have "normalizeResourceDefinition Some ?g = Inr ?g" by simp
  with normalize_get ug pg q f
  show ?thesis by (intro exI[of _ ?g] conjI)
qed

text \<open>
  Claim C2 as stated fails for a definition with parameters: the url of its normalisation
  carries the query string built from them, and the second normalisation fails on it.
  On \<^verbatim>\<open>http://a.com/?q=x\<close> the package \<^verbatim>\<open>normalize-url\<close> returns its argument, so the
  function that returns every string stands for it here.
\<close>

theorem renormalize_counterexample:
  "map_sum id url
     (normalizeResourceDefinition Some (user_resource None (Some [(''q'', Str ''x'')]))) =
     Inr (Some ''http://a.com/?q=x'') \<and>
   bind_err (normalizeResourceDefinition Some (user_resource None (Some [(''q'', Str ''x'')])))
     (normalizeResourceDefinition Some) = Inl InvariantViolation"
proof -
  have q: "query_in_url ''http://a.com/?q=x''" by simp
  from normalize_derived[OF schema_user_resource, of Some None "Some [(''q'', Str ''x'')]"
        "''http://a.com/?q=x''" "''GET''"] q
  show ?thesis
    by (simp add: normalize_with_params derive_fields bind_err_def)
qed

end
